theory Spec2Isabelle
  imports Complex_Main "HOL-Library.Sublist"
begin

section \<open>JavaScript numbers\<close>

text \<open>
  The dashboard components compute with JavaScript Numbers, the binary64 numbers of
  IEEE 754. A Number is modelled as a real number or one of the three special values.
  The operations \<open>jadd\<close>, \<open>jsub\<close>, \<open>jmul\<close>, \<open>jdiv\<close>, \<open>Math_sqrt\<close> and \<open>Math_pow2\<close> give
  the exact result on finite values and follow IEEE 754 on the special values;
  \<open>round64\<close> rounds an exact result to the nearest binary64 number, and \<open>fl\<close> applies it
  to the result of an operation. The statistics of the prices (\<open>averagePrice\<close>,
  \<open>priceVolatility\<close>, \<open>percentChange\<close>) round the result of every operation, as the
  runtime does; \<open>Math.sqrt\<close> and \<open>Math.pow(x, 2)\<close> are taken to return the correctly
  rounded result. The differences of dates and the placeholder correlations drawn from
  \<open>Math.random()\<close> are taken unrounded: time values are whole milliseconds, whose
  differences are exact.

  The model has one zero, which stands for \<open>+0\<close>. A volatility is a square root of a sum
  of squares that starts from the literal \<open>0\<close> and is never \<open>-0\<close>; an average is \<open>-0\<close> only
  when the quotient of a negative sum underflows, and the theorems that divide by an
  average assume positive prices or averages of moderate magnitude.
\<close>

datatype jsnum = Num real | PosInf | NegInf | NaN

fun isFinite :: "jsnum \<Rightarrow> bool" where
  "isFinite (Num a) = True"
| "isFinite PosInf = False"
| "isFinite NegInf = False"
| "isFinite NaN = False"

text \<open>The real number a finite Number holds (used only to state properties).\<close>

fun realOf :: "jsnum \<Rightarrow> real" where
  "realOf (Num a) = a"
| "realOf PosInf = 0"
| "realOf NegInf = 0"
| "realOf NaN = 0"

fun jneg :: "jsnum \<Rightarrow> jsnum" where
  "jneg (Num a) = Num (- a)"
| "jneg PosInf = NegInf"
| "jneg NegInf = PosInf"
| "jneg NaN = NaN"

text \<open>\<open>a + b\<close>\<close>

fun jadd :: "jsnum \<Rightarrow> jsnum \<Rightarrow> jsnum" where
  "jadd (Num a) (Num b) = Num (a + b)"
| "jadd NaN b = NaN"
| "jadd a NaN = NaN"
| "jadd PosInf NegInf = NaN"
| "jadd NegInf PosInf = NaN"
| "jadd PosInf b = PosInf"
| "jadd a PosInf = PosInf"
| "jadd NegInf b = NegInf"
| "jadd a NegInf = NegInf"

text \<open>\<open>a - b\<close>\<close>

definition jsub :: "jsnum \<Rightarrow> jsnum \<Rightarrow> jsnum" where
  "jsub a b = jadd a (jneg b)"

text \<open>\<open>a * b\<close>\<close>

fun jmul :: "jsnum \<Rightarrow> jsnum \<Rightarrow> jsnum" where
  "jmul (Num a) (Num b) = Num (a * b)"
| "jmul NaN b = NaN"
| "jmul a NaN = NaN"
| "jmul PosInf (Num b) = (if b = 0 then NaN else if 0 < b then PosInf else NegInf)"
| "jmul NegInf (Num b) = (if b = 0 then NaN else if 0 < b then NegInf else PosInf)"
| "jmul (Num a) PosInf = (if a = 0 then NaN else if 0 < a then PosInf else NegInf)"
| "jmul (Num a) NegInf = (if a = 0 then NaN else if 0 < a then NegInf else PosInf)"
| "jmul PosInf PosInf = PosInf"
| "jmul PosInf NegInf = NegInf"
| "jmul NegInf PosInf = NegInf"
| "jmul NegInf NegInf = PosInf"

text \<open>\<open>a / b\<close>: a finite value divided by zero is an infinity, or \<open>NaN\<close> for \<open>0 / 0\<close>.\<close>

fun jdiv :: "jsnum \<Rightarrow> jsnum \<Rightarrow> jsnum" where
  "jdiv (Num a) (Num b) =
     (if b = 0 then (if a = 0 then NaN else if 0 < a then PosInf else NegInf)
      else Num (a / b))"
| "jdiv NaN b = NaN"
| "jdiv a NaN = NaN"
| "jdiv (Num a) PosInf = Num 0"
| "jdiv (Num a) NegInf = Num 0"
| "jdiv PosInf (Num b) = (if 0 \<le> b then PosInf else NegInf)"
| "jdiv NegInf (Num b) = (if 0 \<le> b then NegInf else PosInf)"
| "jdiv PosInf PosInf = NaN"
| "jdiv PosInf NegInf = NaN"
| "jdiv NegInf PosInf = NaN"
| "jdiv NegInf NegInf = NaN"

text \<open>\<open>Math.sqrt(a)\<close>, \<open>Math.pow(a, 2)\<close> and \<open>Math.abs(a)\<close>\<close>

fun Math_sqrt :: "jsnum \<Rightarrow> jsnum" where
  "Math_sqrt (Num a) = (if a < 0 then NaN else Num (sqrt a))"
| "Math_sqrt PosInf = PosInf"
| "Math_sqrt NegInf = NaN"
| "Math_sqrt NaN = NaN"

fun Math_pow2 :: "jsnum \<Rightarrow> jsnum" where
  "Math_pow2 (Num a) = Num (a ^ 2)"
| "Math_pow2 PosInf = PosInf"
| "Math_pow2 NegInf = PosInf"
| "Math_pow2 NaN = NaN"

fun Math_abs :: "jsnum \<Rightarrow> jsnum" where
  "Math_abs (Num a) = Num \<bar>a\<bar>"
| "Math_abs PosInf = PosInf"
| "Math_abs NegInf = PosInf"
| "Math_abs NaN = NaN"

text \<open>\<open>a <= b\<close> and \<open>a < b\<close>: every comparison with \<open>NaN\<close> is false.\<close>

fun jle :: "jsnum \<Rightarrow> jsnum \<Rightarrow> bool" where
  "jle (Num a) (Num b) = (a \<le> b)"
| "jle NaN b = False"
| "jle a NaN = False"
| "jle NegInf b = True"
| "jle a PosInf = True"
| "jle PosInf b = False"
| "jle a NegInf = False"

fun jlt :: "jsnum \<Rightarrow> jsnum \<Rightarrow> bool" where
  "jlt (Num a) (Num b) = (a < b)"
| "jlt NaN b = False"
| "jlt a NaN = False"
| "jlt PosInf b = False"
| "jlt a NegInf = False"
| "jlt NegInf b = True"
| "jlt a PosInf = True"

text \<open>\<open>a >= b\<close> and \<open>a > b\<close>\<close>

definition jge :: "jsnum \<Rightarrow> jsnum \<Rightarrow> bool" where
  "jge a b = jle b a"

definition jgt :: "jsnum \<Rightarrow> jsnum \<Rightarrow> bool" where
  "jgt a b = jlt b a"

subsection \<open>Rounding to binary64\<close>

text \<open>The nearest integer, the even one of two (round to nearest, ties to even).\<close>

definition roundHalfEven :: "real \<Rightarrow> int" where
  "roundHalfEven z =
     (let f = \<lfloor>z\<rfloor>; d = z - of_int f
      in if d < 1 / 2 then f else if 1 / 2 < d then f + 1 else if even f then f else f + 1)"

text \<open>
  The exponent of the binade of \<open>x\<close>: the largest \<open>e\<close> with \<open>2^e \<le> |x|\<close>, and -1022 for the
  subnormal numbers.
\<close>

definition binade :: "real \<Rightarrow> int" where
  "binade x = max \<lfloor>log 2 \<bar>x\<bar>\<rfloor> (- 1022)"

text \<open>
  A binary64 number of the binade \<open>e\<close> is a multiple of \<open>2^(e - 52)\<close>. The rounding of \<open>x\<close> is
  the nearest such multiple, and an infinity when that is \<open>2^1024\<close> or more in magnitude.
\<close>

definition round64 :: "real \<Rightarrow> jsnum" where
  "round64 x =
     (if x = 0 then Num 0
      else
        let q = 2 powr (of_int (binade x) - 52);
            y = of_int (roundHalfEven (x / q)) * q
        in if 2 ^ 1024 \<le> \<bar>y\<bar> then (if 0 < x then PosInf else NegInf) else Num y)"

fun fl :: "jsnum \<Rightarrow> jsnum" where
  "fl (Num x) = round64 x"
| "fl PosInf = PosInf"
| "fl NegInf = NegInf"
| "fl NaN = NaN"

subsection \<open>\<open>Number.prototype.toFixed\<close>\<close>

text \<open>
  \<open>x.toFixed(f)\<close> returns a string. The model keeps the string's structure instead of its
  characters: \<open>Decimal neg n f\<close> is the sign \<open>-\<close> when \<open>neg\<close>, followed by the digits of
  the integer \<open>n\<close> with a decimal point before the last \<open>f\<close> digits; \<open>Literal x\<close> is
  \<open>String(x)\<close>, which \<open>toFixed\<close> returns for a value that is not finite or is at least
  \<open>10^21\<close> in magnitude. As ECMAScript defines it, \<open>n\<close> is the integer for which
  \<open>n / 10^f\<close> is closest to the magnitude of \<open>x\<close>, the larger one of two.
\<close>

datatype numstr = Decimal bool nat nat | Literal jsnum

fun toFixed :: "nat \<Rightarrow> jsnum \<Rightarrow> numstr" where
  "toFixed f (Num x) =
     (if 10 ^ 21 \<le> \<bar>x\<bar> then Literal (Num x)
      else Decimal (x < 0) (nat \<lfloor>\<bar>x\<bar> * 10 ^ f + 1 / 2\<rfloor>) f)"
| "toFixed f PosInf = Literal PosInf"
| "toFixed f NegInf = Literal NegInf"
| "toFixed f NaN = Literal NaN"

text \<open>\<open>parseFloat\<close> of a string that \<open>toFixed\<close> returned (\<open>-0.00\<close> reads as zero).\<close>

fun parseFloat :: "numstr \<Rightarrow> jsnum" where
  "parseFloat (Decimal neg n f) = Num ((if neg then - 1 else 1) * (real n / 10 ^ f))"
| "parseFloat (Literal x) = x"

section \<open>The data the components hold\<close>

text \<open>
  A record of the API carries its date as a string, and every function below reads it
  through \<open>new Date(...)\<close>. The field \<open>date\<close> is the time value of that \<open>Date\<close>:
  milliseconds since the epoch, \<open>NaN\<close> for a string that is not a date.
\<close>

record dated =
  date :: jsnum

record price_point = dated +
  price :: jsnum

record change_point = dated +
  confidence :: jsnum
  cp_type :: string

record geo_event = dated +
  event_type :: string

text \<open>The \<open>data\<close> state of \<open>ChangePointsView\<close> and of \<open>CorrelationAnalysis\<close>.\<close>

record view_data =
  changePoints :: "change_point list"
  prices :: "price_point list"

datatype api_response = ApiResponse

record correlation_data = view_data +
  correlationData :: "api_response option"
  events :: "geo_event list"

section \<open>ChangePointsView\<close>

text \<open>
  The component's functions close over its state: \<open>data\<close>, \<open>confidenceThreshold\<close> and
  \<open>analysisWindow\<close>. In the model the state a function reads is its leading arguments.
\<close>

text \<open>The values of the \<open>Min Confidence\<close> select, and the initial threshold.\<close>

definition confidenceThresholdOptions :: "real list" where
  "confidenceThresholdOptions = [0.5, 0.6, 0.7, 0.8, 0.9]"

definition initialConfidenceThreshold :: real where
  "initialConfidenceThreshold = 0.7"

definition getFilteredChangePoints :: "'a view_data_scheme \<Rightarrow> jsnum \<Rightarrow> change_point list" where
  "getFilteredChangePoints data confidenceThreshold =
     filter (\<lambda>cp. jge (confidence cp) confidenceThreshold) (changePoints data)"

definition msPerDay :: real where
  "msPerDay = 1000 * 60 * 60 * 24"

definition beforeData :: "'a view_data_scheme \<Rightarrow> jsnum \<Rightarrow> change_point \<Rightarrow> price_point list" where
  "beforeData data analysisWindow changePoint =
     (let cpDate = date changePoint in
      filter (\<lambda>p.
        let pDate = date p;
            daysDiff = jdiv (jsub cpDate pDate) (Num msPerDay)
        in jge daysDiff (Num 0) \<and> jle daysDiff analysisWindow) (prices data))"

definition afterData :: "'a view_data_scheme \<Rightarrow> jsnum \<Rightarrow> change_point \<Rightarrow> price_point list" where
  "afterData data analysisWindow changePoint =
     (let cpDate = date changePoint in
      filter (\<lambda>p.
        let pDate = date p;
            daysDiff = jdiv (jsub pDate cpDate) (Num msPerDay)
        in jge daysDiff (Num 0) \<and> jle daysDiff analysisWindow) (prices data))"

text \<open>\<open>ps.reduce((sum, p) => sum + p.price, 0) / ps.length\<close>\<close>

definition averagePrice :: "price_point list \<Rightarrow> jsnum" where
  "averagePrice ps =
     fl (jdiv (foldl (\<lambda>sum p. fl (jadd sum (price p))) (Num 0) ps) (Num (real (length ps))))"

text \<open>\<open>Math.sqrt(ps.reduce((sum, p) => sum + Math.pow(p.price - avg, 2), 0) / ps.length)\<close>\<close>

definition priceVolatility :: "price_point list \<Rightarrow> jsnum \<Rightarrow> jsnum" where
  "priceVolatility ps avg =
     fl (Math_sqrt
          (fl (jdiv (foldl (\<lambda>sum p. fl (jadd sum (fl (Math_pow2 (fl (jsub (price p) avg))))))
                          (Num 0) ps)
                    (Num (real (length ps))))))"

text \<open>\<open>((after - before) / before) * 100\<close>\<close>

definition percentChange :: "jsnum \<Rightarrow> jsnum \<Rightarrow> jsnum" where
  "percentChange after before =
     fl (jmul (fl (jdiv (fl (jsub after before)) before)) (Num 100))"

record analysis =
  avgBefore :: numstr
  avgAfter :: numstr
  priceChange :: numstr
  volatilityBefore :: numstr
  volatilityAfter :: numstr
  volatilityChange :: numstr
  significance :: string

text \<open>
  The function returns \<open>null\<close> (here \<open>None\<close>) when a window is too small. The fields
  of the analysis bear the source's names, so the source's local constants \<open>avgBefore\<close>,
  \<open>avgAfter\<close>, \<open>volatilityBefore\<close> and \<open>volatilityAfter\<close> are \<open>avgB\<close>, \<open>avgA\<close>, \<open>volB\<close>
  and \<open>volA\<close> here, and its \<open>beforeData\<close> and \<open>afterData\<close> are functions of their own.
\<close>

definition getChangePointAnalysis :: "'a view_data_scheme \<Rightarrow> jsnum \<Rightarrow> change_point \<Rightarrow> analysis option" where
  "getChangePointAnalysis data analysisWindow changePoint =
     (let before = beforeData data analysisWindow changePoint;
          after = afterData data analysisWindow changePoint
      in if length before < 10 \<or> length after < 10 then None
         else
           let avgB = averagePrice before;
               avgA = averagePrice after;
               volB = priceVolatility before avgB;
               volA = priceVolatility after avgA
           in Some \<lparr>avgBefore = toFixed 2 avgB,
                     avgAfter = toFixed 2 avgA,
                     priceChange = toFixed 2 (percentChange avgA avgB),
                     volatilityBefore = toFixed 2 volB,
                     volatilityAfter = toFixed 2 volA,
                     volatilityChange = toFixed 2 (percentChange volA volB),
                     significance =
                       (if jgt (confidence changePoint) (Num 0.9) then ''High''
                        else if jgt (confidence changePoint) (Num 0.8) then ''Medium''
                        else ''Low'')\<rparr>)"






section \<open>CorrelationAnalysis\<close>

text \<open>
  \<open>Math.random()\<close> is the only effect of the component's computations. The values the
  runtime will return, each in \<open>[0, 1)\<close>, are a sequence \<open>r\<close>, and the number of calls made
  so far is the state that every function takes and returns: the call number \<open>k\<close> returns
  \<open>r k\<close>.
\<close>

type_synonym rng = "nat \<Rightarrow> real"

definition Math_random :: "rng \<Rightarrow> nat \<Rightarrow> jsnum \<times> nat" where
  "Math_random r k = (Num (r k), Suc k)"

record factor =
  name :: string
  key :: string

definition factors :: "factor list" where
  "factors =
     [\<lparr>name = ''Price Volatility'', key = ''volatility''\<rparr>,
      \<lparr>name = ''Event Frequency'', key = ''eventFrequency''\<rparr>,
      \<lparr>name = ''Change Point Frequency'', key = ''changePointFreq''\<rparr>,
      \<lparr>name = ''Geopolitical Events'', key = ''geopoliticalEvents''\<rparr>,
      \<lparr>name = ''Economic Events'', key = ''economicEvents''\<rparr>,
      \<lparr>name = ''Supply Disruptions'', key = ''supplyEvents''\<rparr>]"

text \<open>
  An entry of the matrix: the source's fields \<open>x\<close>, \<open>y\<close>, \<open>value\<close> and \<open>correlation\<close>.
\<close>

record cell =
  cell_x :: string
  cell_y :: string
  cell_value :: jsnum
  cell_correlation :: numstr

text \<open>The body of the inner loop: it pushes the entry for the factors \<open>i\<close> and \<open>j\<close>.\<close>

definition pushCell :: "rng \<Rightarrow> nat \<Rightarrow> nat \<Rightarrow> cell list \<times> nat \<Rightarrow> cell list \<times> nat" where
  "pushCell r i j st =
     (let (matrix, k) = st;
          (correlation, k') =
            (if i = j then (Num 1, k)
             else let (u, k1) = Math_random r k in (jsub (jmul u (Num 2)) (Num 1), k1))
      in (matrix @ [\<lparr>cell_x = name (factors ! i),
                      cell_y = name (factors ! j),
                      cell_value = correlation,
                      cell_correlation = toFixed 3 correlation\<rparr>], k'))"

definition calculateCorrelationMatrix ::
  "'a correlation_data_scheme \<Rightarrow> rng \<Rightarrow> nat \<Rightarrow> cell list \<times> nat" where
  "calculateCorrelationMatrix data r k =
     (if correlationData data = None then ([], k)
      else fold (\<lambda>i. fold (\<lambda>j. pushCell r i j) [0..<length factors])
             [0..<length factors] ([], k))"

text \<open>
  The object \<open>eventTypes\<close>, keyed by event type, as an association list in insertion
  order, which is the order \<open>Object.entries\<close> lists the keys of the event types in.
  This holds for event types that are names such as \<open>military_conflict\<close>: a key that is
  an array index is listed before the others, and a key that names a property of
  \<open>Object.prototype\<close> (such as \<open>toString\<close>) is found there before it is ever added; the
  model does not cover event types of these two kinds.
  The source's fields are \<open>count\<close>, \<open>avgImpact\<close> and \<open>impacts\<close>.
\<close>

record type_stats =
  stats_count :: nat
  stats_avgImpact :: jsnum
  impacts :: "jsnum list"

text \<open>The body of the \<open>forEach\<close> over the events.\<close>

definition recordEvent ::
  "rng \<Rightarrow> (string \<times> type_stats) list \<times> nat \<Rightarrow> geo_event \<Rightarrow> (string \<times> type_stats) list \<times> nat" where
  "recordEvent r st event =
     (let (eventTypes, k) = st;
          eventTypes1 =
            (if map_of eventTypes (event_type event) = None
             then eventTypes @
                    [(event_type event, \<lparr>stats_count = 0, stats_avgImpact = Num 0, impacts = []\<rparr>)]
             else eventTypes);
          (u, k') = Math_random r k;
          impact = jsub (jmul u (Num 20)) (Num 10)
      in (map (\<lambda>(t, s). if t = event_type event
                          then (t, s\<lparr>impacts := impacts s @ [impact],
                                     stats_count := stats_count s + 1\<rparr>)
                          else (t, s)) eventTypes1, k'))"

text \<open>
  A row of the event-impact table: the source's fields \<open>eventType\<close>, \<open>count\<close>,
  \<open>avgImpact\<close>, \<open>correlation\<close> and \<open>strength\<close>.
\<close>

record impact_row =
  eventType :: string
  impact_count :: nat
  avgImpact :: numstr
  impact_correlation :: numstr
  strength :: jsnum

text \<open>The body of the \<open>map\<close> over \<open>Object.entries(eventTypes)\<close>.\<close>

definition summarizeType ::
  "rng \<Rightarrow> string \<times> type_stats \<Rightarrow> impact_row list \<times> nat \<Rightarrow> impact_row list \<times> nat" where
  "summarizeType r entry st =
     (let (t, s) = entry;
          (rows, k) = st;
          avg = jdiv (foldl (\<lambda>sum impact. jadd sum impact) (Num 0) (impacts s))
                     (Num (real (length (impacts s))));
          (u, k') = Math_random r k;
          correlation = jsub (jmul u (Num 2)) (Num 1)
      in (rows @ [\<lparr>eventType = t,
                    impact_count = stats_count s,
                    avgImpact = toFixed 2 avg,
                    impact_correlation = toFixed 3 correlation,
                    strength = Math_abs correlation\<rparr>], k'))"

text \<open>
  \<open>rows.sort((a, b) => b.strength - a.strength)\<close>: the sort is stable, and \<open>a\<close> stays
  before \<open>b\<close> unless the comparison is positive (a comparison that is \<open>NaN\<close> counts as zero).
\<close>

fun insertByStrength :: "impact_row \<Rightarrow> impact_row list \<Rightarrow> impact_row list" where
  "insertByStrength a [] = [a]"
| "insertByStrength a (b # bs) =
     (if jgt (jsub (strength b) (strength a)) (Num 0) then b # insertByStrength a bs
      else a # b # bs)"

definition sortByStrength :: "impact_row list \<Rightarrow> impact_row list" where
  "sortByStrength rows = foldr insertByStrength rows []"

definition getEventImpactCorrelation ::
  "'a correlation_data_scheme \<Rightarrow> rng \<Rightarrow> nat \<Rightarrow> impact_row list \<times> nat" where
  "getEventImpactCorrelation data r k =
     (let (eventTypes, k1) = foldl (recordEvent r) ([], k) (events data);
          (rows, k2) = fold (summarizeType r) eventTypes ([], k1)
      in (sortByStrength rows, k2))"

text \<open>
  The periods of the time-period table. \<open>period_start\<close> and \<open>period_end\<close> are the time
  values of \<open>new Date(period.start)\<close> and \<open>new Date(period.end)\<close>: a date-only string is
  midnight UTC, and 2020-01-01 is day 18262 after the epoch.
\<close>

record period =
  period_name :: string
  period_start :: jsnum
  period_end :: jsnum

definition periods :: "period list" where
  "periods =
     [\<lparr>period_name = ''2020-2021'', period_start = Num 1577836800000, period_end = Num 1640908800000\<rparr>,
      \<lparr>period_name = ''2021-2022'', period_start = Num 1609459200000, period_end = Num 1672444800000\<rparr>,
      \<lparr>period_name = ''2022-2023'', period_start = Num 1640995200000, period_end = Num 1703980800000\<rparr>,
      \<lparr>period_name = ''2023-2024'', period_start = Num 1672531200000, period_end = Num 1735603200000\<rparr>]"

text \<open>The filter the source applies to events, change points and prices alike.\<close>

definition inPeriod :: "period \<Rightarrow> 'a dated_scheme \<Rightarrow> bool" where
  "inPeriod p e = (jge (date e) (period_start p) \<and> jle (date e) (period_end p))"

text \<open>
  A row of the time-period table: the source's fields \<open>period\<close>, \<open>eventCount\<close>,
  \<open>changePointCount\<close>, \<open>avgPrice\<close>, \<open>volatility\<close> and \<open>correlation\<close>.
\<close>

record period_row =
  period_label :: string
  eventCount :: nat
  changePointCount :: nat
  avgPrice :: numstr
  volatility :: numstr
  period_correlation :: numstr

text \<open>The body of the \<open>map\<close> over the periods.\<close>

definition analysePeriod ::
  "'a correlation_data_scheme \<Rightarrow> rng \<Rightarrow> period \<Rightarrow> period_row list \<times> nat \<Rightarrow> period_row list \<times> nat" where
  "analysePeriod data r p st =
     (let (rows, k) = st;
          periodEvents = filter (inPeriod p) (events data);
          periodChangePoints = filter (inPeriod p) (changePoints data);
          periodPrices = filter (inPeriod p) (prices data);
          avg = (if 0 < length periodPrices then averagePrice periodPrices else Num 0);
          vol = (if 1 < length periodPrices then priceVolatility periodPrices avg else Num 0);
          (u, k') = Math_random r k
      in (rows @ [\<lparr>period_label = period_name p,
                    eventCount = length periodEvents,
                    changePointCount = length periodChangePoints,
                    avgPrice = toFixed 2 avg,
                    volatility = toFixed 2 vol,
                    period_correlation = toFixed 3 (jsub (jmul u (Num 2)) (Num 1))\<rparr>], k'))"

definition getTimePeriodAnalysis ::
  "'a correlation_data_scheme \<Rightarrow> rng \<Rightarrow> nat \<Rightarrow> period_row list \<times> nat" where
  "getTimePeriodAnalysis data r k = fold (analysePeriod data r) periods ([], k)"

text \<open>
  The body of the component, once the data is loaded: it computes the three tables in this
  order each time the component renders.
\<close>

definition CorrelationAnalysis ::
  "'a correlation_data_scheme \<Rightarrow> rng \<Rightarrow> nat \<Rightarrow>
     (cell list \<times> impact_row list \<times> period_row list) \<times> nat" where
  "CorrelationAnalysis data r k =
     (let (correlationMatrix, k1) = calculateCorrelationMatrix data r k;
          (eventImpactCorrelations, k2) = getEventImpactCorrelation data r k1;
          (timePeriodAnalysis, k3) = getTimePeriodAnalysis data r k2
      in ((correlationMatrix, eventImpactCorrelations, timePeriodAnalysis), k3))"

section \<open>The notions of the specification\<close>


definition finitePrices :: "price_point list \<Rightarrow> bool" where
  "finitePrices ps = list_all (\<lambda>p. isFinite (price p)) ps"

definition positivePrices :: "price_point list \<Rightarrow> bool" where
  "positivePrices ps = list_all (\<lambda>p. isFinite (price p) \<and> 0 < realOf (price p)) ps"

definition validDates :: "'a dated_scheme list \<Rightarrow> bool" where
  "validDates es = list_all (\<lambda>e. isFinite (date e)) es"

definition spec_mean :: "real list \<Rightarrow> real" where
  "spec_mean xs = sum_list xs / real (length xs)"


text \<open>\<open>(after - before) / before * 100\<close>\<close>

definition spec_change_pct :: "real \<Rightarrow> real \<Rightarrow> real" where
  "spec_change_pct after before = (after - before) / before * 100"

text \<open>\<open>a - b\<close> for two dates, in days.\<close>

definition spec_days :: "jsnum \<Rightarrow> jsnum \<Rightarrow> real" where
  "spec_days a b = (realOf a - realOf b) / msPerDay"

text \<open>The Pearson correlation coefficient of two aligned sequences.\<close>

definition spec_pearson :: "real list \<Rightarrow> real list \<Rightarrow> real" where
  "spec_pearson xs ys =
     sum_list (map (\<lambda>(x, y). (x - spec_mean xs) * (y - spec_mean ys)) (zip xs ys)) /
       (sqrt (sum_list (map (\<lambda>x. (x - spec_mean xs) ^ 2) xs)) *
        sqrt (sum_list (map (\<lambda>y. (y - spec_mean ys) ^ 2) ys)))"


definition moderate :: "real \<Rightarrow> bool" where
  "moderate x = (1 / 2 ^ 500 \<le> \<bar>x\<bar> \<and> \<bar>x\<bar> \<le> 2 ^ 500)"




section \<open>Example data\<close>

text \<open>Price points on consecutive days, from the day \<open>first\<close> after the epoch on.\<close>

definition dailyPrices :: "int \<Rightarrow> real list \<Rightarrow> price_point list" where
  "dailyPrices first xs =
     map (\<lambda>(i, x). \<lparr>date = Num (real_of_int (first + int i) * msPerDay), price = Num x\<rparr>)
       (enumerate 0 xs)"

definition changePointAt :: "int \<Rightarrow> real \<Rightarrow> change_point" where
  "changePointAt day c =
     \<lparr>date = Num (real_of_int day * msPerDay), confidence = Num c, cp_type = ''mean_shift''\<rparr>"

definition eventAt :: "int \<Rightarrow> string \<Rightarrow> geo_event" where
  "eventAt day t = \<lparr>date = Num (real_of_int day * msPerDay), event_type = t\<rparr>"

text \<open>
  A series from 8 days before 2020-01-01 (day 18262) to 39 days after it: an anchor on
  2020-01-01 has 9 points in its before-window and 40 in its after-window.
\<close>

definition shortBefore :: view_data where
  "shortBefore =
     \<lparr>changePoints = [changePointAt 18262 0.95],
      prices = dailyPrices 18254 (replicate 48 50)\<rparr>"

text \<open>
  Ten days at 48 and 52 in turn, no price on the anchor day 18262, then ten days at 59 and
  61 in turn: the averages are 50 and 60, the standard deviations 2 and 1.
\<close>

definition risingSeries :: view_data where
  "risingSeries =
     \<lparr>changePoints = [changePointAt 18262 0.95, changePointAt 18262 0.85, changePointAt 18262 0.5],
      prices = dailyPrices 18252 [48, 52, 48, 52, 48, 52, 48, 52, 48, 52] @
               dailyPrices 18263 [59, 61, 59, 61, 59, 61, 59, 61, 59, 61]\<rparr>"

text \<open>
  Ten days at 150, then one day at 150.06 and nine days at 150: the average rises by 0.006,
  which is 0.004 percent.
\<close>

definition tinyRise :: view_data where
  "tinyRise =
     \<lparr>changePoints = [changePointAt 18262 0.95],
      prices = dailyPrices 18252 (replicate 10 150) @
               dailyPrices 18263 (15006 / 100 # replicate 9 150)\<rparr>"

text \<open>Ten days at 50, then ten days at 59 and 61 in turn.\<close>

definition flatBefore :: view_data where
  "flatBefore =
     \<lparr>changePoints = [changePointAt 18262 0.95],
      prices = dailyPrices 18252 (replicate 10 50) @
               dailyPrices 18263 [59, 61, 59, 61, 59, 61, 59, 61, 59, 61]\<rparr>"


text \<open>Ten days at 50 before the anchor day and ten days at 50 after it.\<close>

definition steadySeries :: view_data where
  "steadySeries =
     \<lparr>changePoints = [changePointAt 18262 0.95],
      prices = dailyPrices 18252 (replicate 10 50) @ dailyPrices 18263 (replicate 10 50)\<rparr>"

text \<open>Five change points, one of them below the first bin of the histogram.\<close>

definition mixedConfidences :: view_data where
  "mixedConfidences =
     \<lparr>changePoints = [changePointAt 18262 0.3, changePointAt 18300 0.55, changePointAt 18400 0.95,
                      changePointAt 18500 1, changePointAt 18600 0.7],
      prices = []\<rparr>"

text \<open>
  Events and change points on 2020-06-01, 2021-06-01 and 2024-06-01 (days 18414, 18779
  and 19875): the four periods hold 2, 1, 0 and 1 of each.
\<close>

definition sampleData :: correlation_data where
  "sampleData =
     \<lparr>changePoints = [changePointAt 18414 0.95, changePointAt 18779 0.85, changePointAt 19875 0.7],
      prices = dailyPrices 18414 [40, 42],
      correlationData = Some ApiResponse,
      events = [eventAt 18414 ''pandemic'', eventAt 18779 ''opec_decision'',
                eventAt 19875 ''military_conflict'']\<rparr>"

text \<open>Three sequences of values of \<open>Math.random()\<close>.\<close>

definition lowDraws :: rng where
  "lowDraws k = 1 / 4"

definition highDraws :: rng where
  "highDraws k = 3 / 4"

definition fallingDraws :: rng where
  "fallingDraws k = 1 / (real k + 2)"

section \<open>Rounding\<close>

text \<open>The rounding keeps the sign: it never crosses zero.\<close>

lemma roundHalfEven_of_int: "roundHalfEven (of_int j) = j"
  by (simp add: roundHalfEven_def)

lemma roundHalfEven_nonneg: "0 \<le> z \<Longrightarrow> 0 \<le> roundHalfEven z"
  by (auto simp: roundHalfEven_def Let_def)

lemma roundHalfEven_nonpos: "z \<le> 0 \<Longrightarrow> roundHalfEven z \<le> 0"
proof -
  assume z: "z \<le> 0"
  have f: "\<lfloor>z\<rfloor> \<le> 0" using z by (simp add: floor_le_iff)
  show ?thesis
  proof (cases "z - of_int \<lfloor>z\<rfloor> < 1 / 2")
    case True
    with f show ?thesis by (simp add: roundHalfEven_def Let_def)
  next
    case False
    with z have "of_int \<lfloor>z\<rfloor> < (0::real)" by linarith
    then have "\<lfloor>z\<rfloor> < 0" by (simp only: of_int_less_0_iff)
    then have "\<lfloor>z\<rfloor> + 1 \<le> 0" by arith
    with f show ?thesis by (simp add: roundHalfEven_def Let_def)
  qed
qed

lemma round64_cases [case_names finite pinf ninf]:
  obtains y where "round64 x = Num y" "0 \<le> x \<Longrightarrow> 0 \<le> y" "x \<le> 0 \<Longrightarrow> y \<le> 0"
  | "round64 x = PosInf" "0 < x"
  | "round64 x = NegInf" "x < 0"
proof (cases "x = 0")
  case True
  then have "round64 x = Num 0" by (simp add: round64_def)
  then show ?thesis using that(1) [of 0] by simp
next
  case False
  define q :: real where "q = 2 powr (of_int (binade x) - 52)"
  define y :: real where "y = of_int (roundHalfEven (x / q)) * q"
  have q: "0 < q" by (simp add: q_def)
  have r: "round64 x = (if 2 ^ 1024 \<le> \<bar>y\<bar> then (if 0 < x then PosInf else NegInf) else Num y)"
    using False by (simp add: round64_def Let_def q_def y_def)
  have pos: "0 \<le> y" if "0 \<le> x"
    using that q roundHalfEven_nonneg [of "x / q"] by (simp add: y_def)
  have neg: "y \<le> 0" if "x \<le> 0"
  proof -
    from that q have "x / q \<le> 0" by (simp add: divide_nonpos_pos)
    then have "roundHalfEven (x / q) \<le> 0" by (rule roundHalfEven_nonpos)
    with q show ?thesis by (simp add: y_def mult_nonpos_nonneg)
  qed
  show ?thesis
  proof (cases "2 ^ 1024 \<le> \<bar>y\<bar>")
    case True
    with r False that(2,3) show ?thesis by (cases "0 < x") auto
  next
    case False
    with r that(1) [of y] pos neg show ?thesis by simp
  qed
qed

text \<open>
  The rounding at a known exponent. A multiple of \<open>2^k\<close> with fewer than 54 bits is held
  exactly; the last three rules evaluate the rounding of a given number.
\<close>

lemma binade_eq:
  assumes "2 powr of_int e \<le> \<bar>x\<bar>" and "\<bar>x\<bar> < 2 powr (of_int e + 1)" and "- 1022 \<le> e"
  shows "binade x = e"
proof -
  have "0 < \<bar>x\<bar>" using assms(1) powr_gt_zero [of 2 "of_int e"] by linarith
  then have "\<lfloor>log 2 \<bar>x\<bar>\<rfloor> = e"
    using assms(1,2) by (simp add: floor_log_eq_powr_iff)
  with assms(3) show ?thesis by (simp add: binade_def)
qed

lemma round64_at:
  assumes "2 powr of_int e \<le> \<bar>x\<bar>" and "\<bar>x\<bar> < 2 powr (of_int e + 1)" and "- 1022 \<le> e"
  shows "round64 x =
     (let q = 2 powr (of_int e - 52);
          y = of_int (roundHalfEven (x / q)) * q
      in if 2 ^ 1024 \<le> \<bar>y\<bar> then (if 0 < x then PosInf else NegInf) else Num y)"
proof -
  have "x \<noteq> 0" using assms(1) powr_gt_zero [of 2 "of_int e"] by auto
  then show ?thesis by (simp add: round64_def binade_eq [OF assms])
qed

lemma binade_le:
  assumes x: "x \<noteq> 0" and b: "\<bar>x\<bar> < 2 powr of_int n" and n: "- 1021 \<le> n"
  shows "binade x < n"
proof -
  have "log 2 \<bar>x\<bar> < of_int n"
    using x b by (simp add: log_less_iff)
  then have "\<lfloor>log 2 \<bar>x\<bar>\<rfloor> < n" by (simp add: floor_less_iff)
  with n show ?thesis by (simp add: binade_def)
qed

lemma round64_dyadic:
  assumes x: "x = of_int m * 2 powr of_int k"
    and m: "\<bar>m\<bar> < 2 ^ 53" and k: "- 1074 \<le> k" and bound: "\<bar>x\<bar> < 2 ^ 1024"
  shows "round64 x = Num x"
proof (cases "x = 0")
  case True
  then show ?thesis by (simp add: round64_def)
next
  case False
  define e where "e = binade x"
  have "\<bar>x\<bar> = of_int \<bar>m\<bar> * 2 powr of_int k"
    by (simp add: x abs_mult)
  also have "\<dots> < 2 ^ 53 * 2 powr of_int k"
  proof -
    from m have "(of_int \<bar>m\<bar> :: real) < of_int (2 ^ 53)" by (simp only: of_int_less_iff)
    then show ?thesis by simp
  qed
  also have "\<dots> = 2 powr of_int (k + 53)"
    by (simp add: powr_add powr_numeral mult.commute)
  finally have "\<bar>x\<bar> < 2 powr of_int (k + 53)" .
  from binade_le [OF False this] k have e: "e \<le> k + 52" by (simp add: e_def)
  define j where "j = nat (k + 52 - e)"
  have j: "of_int k - (of_int e - 52) = (real j)" using e by (simp add: j_def)
  have "x / 2 powr (of_int e - 52) = of_int m * 2 powr (of_int k - (of_int e - 52))"
    by (simp add: x powr_diff)
  also have "\<dots> = of_int m * 2 ^ j"
    by (simp only: j powr_realpow [of 2 j, simplified])
  also have "\<dots> = of_int (m * 2 ^ j)" by simp
  finally have z: "x / 2 powr (of_int e - 52) = of_int (m * 2 ^ j)" .
  have "of_int (m * 2 ^ j) * 2 powr (of_int e - 52) = x"
    using z by (simp add: nonzero_divide_eq_eq)
  then have "of_int (roundHalfEven (x / 2 powr (of_int e - 52))) * 2 powr (of_int e - 52) = x"
    by (simp only: z roundHalfEven_of_int)
  with False bound show ?thesis
    by (simp add: round64_def Let_def e_def)
qed

lemma round64_fixed:
  assumes "of_int \<lfloor>x * 2 ^ 20\<rfloor> = x * 2 ^ 20" and "\<bar>x\<bar> < 2 ^ 33"
  shows "round64 x = Num x"
proof (rule round64_dyadic [of x "\<lfloor>x * 2 ^ 20\<rfloor>" "- 20"])
  show "x = of_int \<lfloor>x * 2 ^ 20\<rfloor> * 2 powr of_int (- 20)"
    by (simp only: assms(1)) (simp add: powr_minus_divide)
  have "\<bar>x * 2 ^ 20\<bar> < 2 ^ 53" using assms(2) by (simp add: abs_mult)
  then have "\<bar>of_int \<lfloor>x * 2 ^ 20\<rfloor> :: real\<bar> < of_int (2 ^ 53)" by (simp only: assms(1)) simp
  then show "\<bar>\<lfloor>x * 2 ^ 20\<rfloor>\<bar> < 2 ^ 53" by (simp only: of_int_abs [symmetric] of_int_less_iff)
  show "- 1074 \<le> (- 20 :: int)" by simp
  from assms(2) show "\<bar>x\<bar> < 2 ^ 1024" by (rule less_trans) simp
qed

lemma round64_up:
  fixes n :: nat
  assumes "2 ^ n \<le> \<bar>x\<bar>" and "\<bar>x\<bar> < 2 * 2 ^ n"
  shows "round64 x =
     (let y = of_int (roundHalfEven (x * 2 ^ 52 / 2 ^ n)) * 2 ^ n / 2 ^ 52
      in if 2 ^ 1024 \<le> \<bar>y\<bar> then (if 0 < x then PosInf else NegInf) else Num y)"
proof -
  have p: "2 powr (of_int (int n)) = (2::real) ^ n"
    by (simp add: powr_realpow)
  have q: "2 powr (of_int (int n) - 52) = (2::real) ^ n / 2 ^ 52"
    by (simp add: powr_diff powr_realpow)
  have "round64 x =
     (let q = 2 powr (of_int (int n) - 52);
          y = of_int (roundHalfEven (x / q)) * q
      in if 2 ^ 1024 \<le> \<bar>y\<bar> then (if 0 < x then PosInf else NegInf) else Num y)"
    using assms by (intro round64_at) (simp_all add: powr_realpow powr_add)
  then show ?thesis by (simp only: q Let_def) (simp add: field_simps)
qed

lemma round64_down:
  fixes n :: nat
  assumes "1 \<le> \<bar>x\<bar> * 2 ^ n" and "\<bar>x\<bar> * 2 ^ n < 2" and "n \<le> 1022"
  shows "round64 x =
     (let y = of_int (roundHalfEven (x * 2 ^ 52 * 2 ^ n)) / (2 ^ 52 * 2 ^ n)
      in if 2 ^ 1024 \<le> \<bar>y\<bar> then (if 0 < x then PosInf else NegInf) else Num y)"
proof -
  have p: "2 powr (of_int (- int n)) = 1 / (2::real) ^ n"
    by (simp add: powr_minus_divide powr_realpow)
  have q: "2 powr (of_int (- int n) - 52) = 1 / ((2::real) ^ 52 * 2 ^ n)"
    by (simp add: powr_diff powr_minus_divide powr_realpow)
  have "round64 x =
     (let q = 2 powr (of_int (- int n) - 52);
          y = of_int (roundHalfEven (x / q)) * q
      in if 2 ^ 1024 \<le> \<bar>y\<bar> then (if 0 < x then PosInf else NegInf) else Num y)"
  proof (rule round64_at)
    show "2 powr of_int (- int n) \<le> \<bar>x\<bar>"
      using assms(1) by (simp only: p) (simp add: field_simps)
    show "\<bar>x\<bar> < 2 powr (of_int (- int n) + 1)"
      using assms(2) by (simp only: powr_add p) (simp add: field_simps)
    show "- 1022 \<le> - int n" using assms(3) by simp
  qed
  then show ?thesis by (simp only: q Let_def) (simp add: field_simps)
qed

lemma roundHalfEven_error: "\<bar>of_int (roundHalfEven z) - z\<bar> \<le> 1 / 2"
proof -
  have "of_int \<lfloor>z\<rfloor> \<le> z" "z < of_int \<lfloor>z\<rfloor> + 1" by linarith+
  then show ?thesis by (auto simp: roundHalfEven_def Let_def)
qed

lemma round64_unfold:
  assumes "round64 x = Num y"
  shows "y = of_int (roundHalfEven (x / 2 powr (of_int (binade x) - 52))) *
               2 powr (of_int (binade x) - 52)"
proof (cases "x = 0")
  case True
  with assms show ?thesis by (simp add: round64_def roundHalfEven_def)
next
  case False
  with assms show ?thesis by (simp add: round64_def Let_def split: if_splits)
qed

lemma round64_step_error:
  assumes "round64 x = Num y"
  shows "\<bar>y - x\<bar> \<le> 2 powr (of_int (binade x) - 53)"
proof -
  define q :: real where "q = 2 powr (of_int (binade x) - 52)"
  have q: "0 < q" by (simp add: q_def)
  have y: "y = of_int (roundHalfEven (x / q)) * q"
    using round64_unfold [OF assms] by (simp add: q_def)
  have "y - x = (of_int (roundHalfEven (x / q)) - x / q) * q"
    using q by (simp add: y field_simps)
  then have "\<bar>y - x\<bar> = \<bar>of_int (roundHalfEven (x / q)) - x / q\<bar> * q"
    using q by (simp add: abs_mult)
  also have "\<dots> \<le> 1 / 2 * q"
    using roundHalfEven_error [of "x / q"] q by (intro mult_right_mono) simp_all
  also have "\<dots> = 2 powr (of_int (binade x) - 53)"
    by (simp add: q_def powr_diff)
  finally show ?thesis .
qed

lemma binade_normal:
  assumes "2 powr (- 1022) \<le> \<bar>x\<bar>"
  shows "2 powr of_int (binade x) \<le> \<bar>x\<bar>"
proof -
  have pos: "0 < \<bar>x\<bar>" using assms powr_gt_zero [of 2 "- 1022"] by linarith
  have "- 1022 \<le> log 2 \<bar>x\<bar>"
    using assms pos by (simp add: le_log_iff)
  then have "- 1022 \<le> \<lfloor>log 2 \<bar>x\<bar>\<rfloor>" by (simp add: le_floor_iff)
  then have b: "binade x = \<lfloor>log 2 \<bar>x\<bar>\<rfloor>" by (simp add: binade_def)
  have "of_int \<lfloor>log 2 \<bar>x\<bar>\<rfloor> \<le> log 2 \<bar>x\<bar>" by simp
  then have "2 powr of_int \<lfloor>log 2 \<bar>x\<bar>\<rfloor> \<le> 2 powr log 2 \<bar>x\<bar>"
    by (simp only: powr_le_cancel_iff) 
  also have "\<dots> = \<bar>x\<bar>" using pos by simp
  finally show ?thesis by (simp only: b)
qed

text \<open>The relative error of a rounding in the normal range is at most \<open>2^-53\<close>.\<close>

lemma round64_relative_error:
  assumes "2 powr (- 1022) \<le> \<bar>x\<bar>" and "round64 x = Num y"
  shows "\<bar>y - x\<bar> \<le> \<bar>x\<bar> / 2 ^ 53"
proof -
  have "\<bar>y - x\<bar> \<le> 2 powr (of_int (binade x) - 53)"
    using assms(2) by (rule round64_step_error)
  also have "\<dots> = 2 powr of_int (binade x) / 2 ^ 53"
    by (simp add: powr_diff)
  also have "\<dots> \<le> \<bar>x\<bar> / 2 ^ 53"
    using binade_normal [OF assms(1)] by (simp add: divide_right_mono)
  finally show ?thesis .
qed

lemma round64_finite:
  assumes lo: "2 powr (- 1022) \<le> \<bar>x\<bar>" and hi: "\<bar>x\<bar> \<le> 2 ^ 1023"
  shows "\<exists>y. round64 x = Num y"
proof (cases x rule: round64_cases)
  case (finite y)
  then show ?thesis by blast
next
  case pinf
  define q :: real where "q = 2 powr (of_int (binade x) - 52)"
  define y :: real where "y = of_int (roundHalfEven (x / q)) * q"
  have q: "0 < q" by (simp add: q_def)
  have "x \<noteq> 0" using pinf(2) by simp
  with pinf(1) have big: "2 ^ 1024 \<le> \<bar>y\<bar>"
    by (simp add: round64_def Let_def q_def y_def split: if_splits)
  have "y - x = (of_int (roundHalfEven (x / q)) - x / q) * q"
    using q by (simp add: y_def field_simps)
  then have "\<bar>y - x\<bar> = \<bar>of_int (roundHalfEven (x / q)) - x / q\<bar> * q"
    using q by (simp add: abs_mult)
  also have "\<dots> \<le> 1 / 2 * q"
    using roundHalfEven_error [of "x / q"] q by (intro mult_right_mono) simp_all
  also have "\<dots> = 2 powr of_int (binade x) / 2 ^ 53"
    by (simp add: q_def powr_diff)
  also have "\<dots> \<le> \<bar>x\<bar> / 2 ^ 53"
    using binade_normal [OF lo] by (simp add: divide_right_mono)
  finally have "\<bar>y\<bar> \<le> \<bar>x\<bar> + \<bar>x\<bar> / 2 ^ 53" by linarith
  with hi have "\<bar>y\<bar> < 2 ^ 1024" by simp
  with big show ?thesis by simp
next
  case ninf
  define q :: real where "q = 2 powr (of_int (binade x) - 52)"
  define y :: real where "y = of_int (roundHalfEven (x / q)) * q"
  have q: "0 < q" by (simp add: q_def)
  have "x \<noteq> 0" using ninf(2) by simp
  with ninf(1) have big: "2 ^ 1024 \<le> \<bar>y\<bar>"
    by (simp add: round64_def Let_def q_def y_def split: if_splits)
  have "y - x = (of_int (roundHalfEven (x / q)) - x / q) * q"
    using q by (simp add: y_def field_simps)
  then have "\<bar>y - x\<bar> = \<bar>of_int (roundHalfEven (x / q)) - x / q\<bar> * q"
    using q by (simp add: abs_mult)
  also have "\<dots> \<le> 1 / 2 * q"
    using roundHalfEven_error [of "x / q"] q by (intro mult_right_mono) simp_all
  also have "\<dots> = 2 powr of_int (binade x) / 2 ^ 53"
    by (simp add: q_def powr_diff)
  also have "\<dots> \<le> \<bar>x\<bar> / 2 ^ 53"
    using binade_normal [OF lo] by (simp add: divide_right_mono)
  finally have "\<bar>y\<bar> \<le> \<bar>x\<bar> + \<bar>x\<bar> / 2 ^ 53" by linarith
  with hi have "\<bar>y\<bar> < 2 ^ 1024" by simp
  with big show ?thesis by simp
qed

text \<open>
  The percent change of two numbers of moderate magnitude takes three roundings in the
  normal range.
\<close>

lemma round64_normal:
  assumes "1 / 2 ^ 1022 \<le> \<bar>x\<bar>" and "\<bar>x\<bar> \<le> 2 ^ 1023"
  obtains y where "round64 x = Num y" and "\<bar>y - x\<bar> \<le> \<bar>x\<bar> / 2 ^ 53"
proof -
  have lo: "2 powr (- 1022) \<le> \<bar>x\<bar>"
    using assms(1) by (simp add: powr_minus_divide)
  from round64_finite [OF lo assms(2)] obtain y where y: "round64 x = Num y" by blast
  from round64_relative_error [OF lo y] y that show ?thesis by blast
qed

lemma chain_bounds:
  fixes X Y l h :: real
  assumes "X / 2 \<le> Y" and "Y \<le> 2 * X" and "l \<le> X" and "X \<le> h"
  shows "l / 2 \<le> Y" and "Y \<le> 2 * h"
  using assms by linarith+

lemma between:
  fixes X lo hi l h :: real
  assumes "l \<le> X" and "X \<le> h" and "lo \<le> l" and "h \<le> hi"
  shows "lo \<le> X" and "X \<le> hi"
  using assms by linarith+

lemma near_bounds:
  fixes x y u :: real
  assumes "\<bar>y - x\<bar> \<le> \<bar>x\<bar> * u" and "0 \<le> u" and "u \<le> 1 / 2"
  shows "\<bar>x\<bar> / 2 \<le> \<bar>y\<bar>" and "\<bar>y\<bar> \<le> 2 * \<bar>x\<bar>"
proof -
  have "\<bar>x\<bar> * u \<le> \<bar>x\<bar> * (1 / 2)"
    using assms(3) by (intro mult_left_mono) simp_all
  with assms(1) have e: "\<bar>y - x\<bar> \<le> \<bar>x\<bar> / 2" by simp
  then show "\<bar>x\<bar> / 2 \<le> \<bar>y\<bar>" by linarith
  from e show "\<bar>y\<bar> \<le> 2 * \<bar>x\<bar>" by linarith
qed

lemma percentChange_same: "b \<noteq> 0 \<Longrightarrow> percentChange (Num b) (Num b) = Num 0"
  by (simp add: percentChange_def jsub_def round64_def)

lemma percentChange_error:
  assumes b: "moderate b" and D: "moderate (a - b)"
  shows "\<exists>pc. percentChange (Num a) (Num b) = Num pc \<and>
           \<bar>pc - spec_change_pct a b\<bar> \<le> \<bar>spec_change_pct a b\<bar> / 2 ^ 51"
proof -
  define u :: real where "u = 1 / 2 ^ 53"
  define F where "F = spec_change_pct a b"
  define lo :: real where "lo = 1 / 2 ^ 1022"
  define hi :: real where "hi = 2 ^ 1023"
  define l :: real where "l = 1 / 2 ^ 500"
  define h :: real where "h = 2 ^ 500"
  have u: "0 \<le> u" "u \<le> 1 / 2" by (simp_all add: u_def)
  have l: "0 < l" and h: "0 < h" by (simp_all add: l_def h_def)
  have c1: "lo \<le> l" "h \<le> hi" by (simp_all add: lo_def l_def h_def hi_def)
  have c2: "lo \<le> l / 2 / h" "2 * h / l \<le> hi" by (simp_all add: lo_def l_def h_def hi_def)
  have c3: "lo \<le> l / 2 / h / 2 * 100" "2 * (2 * h / l) * 100 \<le> hi"
    by (simp_all add: lo_def l_def h_def hi_def)
  from b have b1: "l \<le> \<bar>b\<bar>" and b2: "\<bar>b\<bar> \<le> h" by (simp_all add: moderate_def l_def h_def)
  from D have D1: "l \<le> \<bar>a - b\<bar>" and D2: "\<bar>a - b\<bar> \<le> h"
    by (simp_all add: moderate_def l_def h_def)
  have b0: "0 < \<bar>b\<bar>" using b1 l by linarith
  have F: "F = (a - b) / b * 100" by (simp add: F_def spec_change_pct_def)
  have normal: "\<exists>y. round64 x = Num y \<and> \<bar>y - x\<bar> \<le> \<bar>x\<bar> * u" if "lo \<le> \<bar>x\<bar>" "\<bar>x\<bar> \<le> hi" for x
  proof -
    from that have "1 / 2 ^ 1022 \<le> \<bar>x\<bar>" "\<bar>x\<bar> \<le> 2 ^ 1023" by (simp_all only: lo_def hi_def)
    then obtain y where "round64 x = Num y" "\<bar>y - x\<bar> \<le> \<bar>x\<bar> / 2 ^ 53" by (rule round64_normal)
    then show ?thesis by (auto simp: u_def)
  qed
  \<comment> \<open>the difference\<close>
  have "lo \<le> \<bar>a - b\<bar>" "\<bar>a - b\<bar> \<le> hi" by (rule between [OF D1 D2 c1])+
  from normal [OF this] obtain d where d: "round64 (a - b) = Num d"
    and de: "\<bar>d - (a - b)\<bar> \<le> \<bar>a - b\<bar> * u" by blast
  have d1: "l / 2 \<le> \<bar>d\<bar>" and d2: "\<bar>d\<bar> \<le> 2 * h"
    by (rule chain_bounds [OF near_bounds [OF de u] D1 D2])+
  \<comment> \<open>the quotient\<close>
  have Q1: "l / 2 / h \<le> \<bar>d / b\<bar>"
  proof -
    have "l / 2 / h \<le> \<bar>d\<bar> / \<bar>b\<bar>"
      using d1 b0 b2 l by (intro frac_le) simp_all
    then show ?thesis by simp
  qed
  have Q2: "\<bar>d / b\<bar> \<le> 2 * h / l"
  proof -
    have "\<bar>d\<bar> / \<bar>b\<bar> \<le> 2 * h / l"
      using d2 b1 l by (intro frac_le) simp_all
    then show ?thesis by simp
  qed
  have "lo \<le> \<bar>d / b\<bar>" "\<bar>d / b\<bar> \<le> hi" by (rule between [OF Q1 Q2 c2])+
  from normal [OF this] obtain q where q: "round64 (d / b) = Num q"
    and qe: "\<bar>q - d / b\<bar> \<le> \<bar>d / b\<bar> * u" by blast
  have q1: "l / 2 / h / 2 \<le> \<bar>q\<bar>" and q2: "\<bar>q\<bar> \<le> 2 * (2 * h / l)"
    by (rule chain_bounds [OF near_bounds [OF qe u] Q1 Q2])+
  \<comment> \<open>the product\<close>
  have P: "\<bar>q * 100\<bar> = \<bar>q\<bar> * 100" by (simp add: abs_mult)
  have "l / 2 / h / 2 * 100 \<le> \<bar>q\<bar> * 100" "\<bar>q\<bar> * 100 \<le> 2 * (2 * h / l) * 100"
    using q1 q2 by simp_all
  then have "lo \<le> \<bar>q * 100\<bar>" "\<bar>q * 100\<bar> \<le> hi"
    unfolding P by (rule between [OF _ _ c3])+
  from normal [OF this] obtain pc where pc: "round64 (q * 100) = Num pc"
    and pe: "\<bar>pc - q * 100\<bar> \<le> \<bar>q * 100\<bar> * u" by blast
  have b_ne: "b \<noteq> 0" using b0 by auto
  have "value": "percentChange (Num a) (Num b) = Num pc"
    using b_ne by (simp add: percentChange_def jsub_def d q pc)
  \<comment> \<open>the three errors\<close>
  have e1: "\<bar>d / b * 100 - F\<bar> \<le> \<bar>F\<bar> * u"
  proof -
    define k where "k = 100 / b"
    have Fk: "F = (a - b) * k" and dk: "d / b * 100 = d * k" by (simp_all add: F k_def)
    have "d * k - (a - b) * k = (d - (a - b)) * k" by (simp only: left_diff_distrib)
    then have "\<bar>d * k - (a - b) * k\<bar> = \<bar>d - (a - b)\<bar> * \<bar>k\<bar>" by (simp only: abs_mult)
    also have "\<dots> \<le> \<bar>a - b\<bar> * u * \<bar>k\<bar>" using de by (intro mult_right_mono) simp_all
    also have "\<dots> = \<bar>(a - b) * k\<bar> * u" by (simp only: abs_mult mult_ac)
    finally show ?thesis by (simp only: Fk dk)
  qed
  have m1: "\<bar>d / b * 100\<bar> \<le> \<bar>F\<bar> * (1 + u)"
  proof -
    have "\<bar>d / b * 100\<bar> \<le> \<bar>F\<bar> + \<bar>F\<bar> * u" using e1 by linarith
    then show ?thesis by (simp add: distrib_left)
  qed
  have e2: "\<bar>q * 100 - d / b * 100\<bar> \<le> \<bar>F\<bar> * (1 + u) * u"
  proof -
    have "q * 100 - d / b * 100 = (q - d / b) * 100" by (simp only: left_diff_distrib)
    then have "\<bar>q * 100 - d / b * 100\<bar> = \<bar>q - d / b\<bar> * \<bar>100\<bar>" by (simp only: abs_mult)
    also have "\<dots> \<le> \<bar>d / b\<bar> * u * \<bar>100\<bar>" using qe by (intro mult_right_mono) simp_all
    also have "\<dots> = \<bar>d / b * 100\<bar> * u" by (simp only: abs_mult mult_ac)
    also have "\<dots> \<le> \<bar>F\<bar> * (1 + u) * u" using m1 u by (intro mult_right_mono) simp_all
    finally show ?thesis .
  qed
  have m2: "\<bar>q * 100\<bar> \<le> \<bar>F\<bar> * (1 + u) * (1 + u)"
  proof -
    have "\<bar>q * 100\<bar> \<le> \<bar>F\<bar> * (1 + u) + \<bar>F\<bar> * (1 + u) * u" using e2 m1 by linarith
    then show ?thesis by (simp add: distrib_left)
  qed
  have e3: "\<bar>pc - q * 100\<bar> \<le> \<bar>F\<bar> * (1 + u) * (1 + u) * u"
  proof -
    note pe
    also have "\<bar>q * 100\<bar> * u \<le> \<bar>F\<bar> * (1 + u) * (1 + u) * u"
      using m2 u by (intro mult_right_mono) simp_all
    finally show ?thesis .
  qed
  have "\<bar>pc - F\<bar> \<le> \<bar>F\<bar> * u + \<bar>F\<bar> * (1 + u) * u + \<bar>F\<bar> * (1 + u) * (1 + u) * u"
    using e1 e2 e3 by linarith
  also have "\<dots> = \<bar>F\<bar> * (u + (1 + u) * u + (1 + u) * (1 + u) * u)"
    by (simp add: algebra_simps)
  also have "\<dots> \<le> \<bar>F\<bar> * (1 / 2 ^ 51)"
    by (intro mult_left_mono) (simp_all add: u_def)
  finally have "\<bar>pc - F\<bar> \<le> \<bar>F\<bar> / 2 ^ 51" by simp
  with "value" show ?thesis unfolding F_def by blast
qed

section \<open>The arithmetic of finite prices\<close>








text \<open>
  Sums and averages of positive prices are not negative, and a finite percent change
  over a non-negative divisor never has the sign opposite to that of the difference.
\<close>

lemma positivePrices_finite: "positivePrices ps \<Longrightarrow> finitePrices ps"
  by (induction ps) (simp_all add: positivePrices_def finitePrices_def)

lemma positivePrices_filter: "positivePrices ps \<Longrightarrow> positivePrices (filter P ps)"
  by (induction ps) (simp_all add: positivePrices_def)

lemma sum_overflowed:
  "finitePrices ps \<Longrightarrow> foldl (\<lambda>sum p. fl (jadd sum (price p))) PosInf ps = PosInf"
proof (induction ps)
  case Nil
  then show ?case by simp
next
  case (Cons p ps)
  from Cons.prems have fp: "isFinite (price p)" and rest: "finitePrices ps"
    by (simp_all add: finitePrices_def)
  from fp obtain x where x: "price p = Num x" by (cases "price p") simp_all
  from Cons.IH [OF rest] x show ?case by simp
qed

lemma sum_nonneg:
  "positivePrices ps \<Longrightarrow> 0 \<le> a \<Longrightarrow>
     (\<exists>s. foldl (\<lambda>sum p. fl (jadd sum (price p))) (Num a) ps = Num s \<and> 0 \<le> s) \<or>
     foldl (\<lambda>sum p. fl (jadd sum (price p))) (Num a) ps = PosInf"
proof (induction ps arbitrary: a)
  case Nil
  then show ?case by simp
next
  case (Cons p ps)
  from Cons.prems(1) have fp: "isFinite (price p)" and xp: "0 < realOf (price p)"
    and rest: "positivePrices ps"
    by (simp_all add: positivePrices_def)
  from fp xp obtain x where x: "price p = Num x" and x0: "0 < x"
    by (cases "price p") simp_all
  have ax: "0 < a + x" using Cons.prems(2) x0 by simp
  show ?case
  proof (cases "a + x" rule: round64_cases)
    case (finite y)
    with ax have "0 \<le> y" by simp
    from Cons.IH [OF rest this] x finite(1) show ?thesis by simp
  next
    case pinf
    with x sum_overflowed [OF positivePrices_finite [OF rest]] show ?thesis by simp
  next
    case ninf
    with ax show ?thesis by simp
  qed
qed

lemma averagePrice_nonneg:
  assumes pos: "positivePrices ps" and m: "averagePrice ps = Num m"
  shows "0 \<le> m"
proof -
  let ?sum = "foldl (\<lambda>sum p. fl (jadd sum (price p))) (Num 0) ps"
  from sum_nonneg [OF pos, of 0] consider s where "?sum = Num s" "0 \<le> s" | "?sum = PosInf"
    by auto
  then show ?thesis
  proof cases
    case 1
    show ?thesis
    proof (cases "ps = []")
      case True
      with m show ?thesis by (simp add: averagePrice_def)
    next
      case False
      then have n: "0 < real (length ps)" by simp
      with 1 have q: "0 \<le> s / real (length ps)" by simp
      from m 1 n have r: "round64 (s / real (length ps)) = Num m"
        by (simp add: averagePrice_def)
      from q r show ?thesis by (cases "s / real (length ps)" rule: round64_cases) simp_all
    qed
  next
    case 2
    with m show ?thesis by (simp add: averagePrice_def)
  qed
qed

lemma percentChange_sign:
  assumes pc: "percentChange (Num a) (Num b) = Num pc" and b: "0 \<le> b"
  shows "0 \<le> pc * (a - b)"
proof (cases "a - b" rule: round64_cases)
  case (finite d)
  show ?thesis
  proof (cases "b = 0")
    case True
    with pc finite(1) show ?thesis
      by (simp add: percentChange_def jsub_def split: if_splits)
  next
    case False
    with b have b0: "0 < b" by simp
    show ?thesis
    proof (cases "d / b" rule: round64_cases)
      case q: (finite q)
      from pc finite(1) False q(1) have r: "round64 (q * 100) = Num pc"
        by (simp add: percentChange_def jsub_def)
      show ?thesis
      proof (cases "0 \<le> a - b")
        case True
        with finite(2) have "0 \<le> d" by simp
        with b0 have "0 \<le> d / b" by simp
        with q(2) have "0 \<le> q * 100" by simp
        with r have "0 \<le> pc" by (cases "q * 100" rule: round64_cases) simp_all
        with True show ?thesis by simp
      next
        case neg: False
        then have n: "a - b \<le> 0" by simp
        with finite(3) have "d \<le> 0" by simp
        with b0 have "d / b \<le> 0" by (simp add: divide_nonpos_pos)
        with q(3) have "q * 100 \<le> 0" by simp
        with r have "pc \<le> 0" by (cases "q * 100" rule: round64_cases) simp_all
        with n show ?thesis by (simp add: mult_nonpos_nonpos)
      qed
    next
      case pinf
      with pc finite(1) False show ?thesis by (simp add: percentChange_def jsub_def)
    next
      case ninf
      with pc finite(1) False show ?thesis by (simp add: percentChange_def jsub_def)
    qed
  qed
next
  case pinf
  with pc b show ?thesis by (simp add: percentChange_def jsub_def)
next
  case ninf
  with pc b show ?thesis by (simp add: percentChange_def jsub_def)
qed

lemma percentChange_equal:
  assumes "percentChange (Num b) (Num b) = Num pc"
  shows "pc = 0"
  using assms by (cases "b = 0") (simp_all add: percentChange_def jsub_def round64_def)

lemma close_sgn:
  fixes x F :: real
  assumes "\<bar>x - F\<bar> \<le> \<bar>F\<bar> / 2 ^ 51"
  shows "sgn x = sgn F"
proof -
  have "\<bar>F\<bar> / 2 ^ 51 \<le> \<bar>F\<bar> / 2" by (intro divide_left_mono) simp_all
  with assms have e: "\<bar>x - F\<bar> \<le> \<bar>F\<bar> / 2" by linarith
  show ?thesis
  proof (cases "F = 0")
    case True
    with e show ?thesis by simp
  next
    case False
    then consider "0 < F" | "F < 0" by linarith
    then show ?thesis
    proof cases
      case 1
      with e have "0 < x" by linarith
      with 1 show ?thesis by simp
    next
      case 2
      with e have "x < 0" by linarith
      with 2 show ?thesis by simp
    qed
  qed
qed

lemma sgn_change_pct: "0 < b \<Longrightarrow> sgn (spec_change_pct a b) = sgn (a - b)"
proof -
  assume b: "0 < b"
  have "spec_change_pct a b = (a - b) * (100 / b)"
    by (simp add: spec_change_pct_def)
  moreover from b have "sgn (100 / b) = 1" by simp
  ultimately show ?thesis by (simp only: sgn_mult mult_1_right)
qed




text \<open>The fields of an analysis that was returned.\<close>

lemma getChangePointAnalysis_Some:
  assumes "getChangePointAnalysis data w cp = Some a"
  shows "10 \<le> length (beforeData data w cp)"
    and "10 \<le> length (afterData data w cp)"
    and "a = \<lparr>avgBefore = toFixed 2 (averagePrice (beforeData data w cp)),
        avgAfter = toFixed 2 (averagePrice (afterData data w cp)),
        priceChange = toFixed 2 (percentChange (averagePrice (afterData data w cp))
                                               (averagePrice (beforeData data w cp))),
        volatilityBefore =
          toFixed 2 (priceVolatility (beforeData data w cp) (averagePrice (beforeData data w cp))),
        volatilityAfter =
          toFixed 2 (priceVolatility (afterData data w cp) (averagePrice (afterData data w cp))),
        volatilityChange =
          toFixed 2 (percentChange
            (priceVolatility (afterData data w cp) (averagePrice (afterData data w cp)))
            (priceVolatility (beforeData data w cp) (averagePrice (beforeData data w cp)))),
        significance = (if jgt (confidence cp) (Num 0.9) then ''High''
                        else if jgt (confidence cp) (Num 0.8) then ''Medium'' else ''Low'')\<rparr>"
  using assms by (simp_all add: getChangePointAnalysis_def Let_def split: if_splits)

lemma getChangePointAnalysis_succeeds:
  assumes "10 \<le> length (beforeData data w cp)" and "10 \<le> length (afterData data w cp)"
  shows "\<exists>a. getChangePointAnalysis data w cp = Some a"
  using assms by (simp add: getChangePointAnalysis_def Let_def)

lemma toFixed2_small: "\<bar>x\<bar> < 1 / 200 \<Longrightarrow> parseFloat (toFixed 2 (Num x)) = Num 0"
proof -
  assume s: "\<bar>x\<bar> < 1 / 200"
  then have "\<bar>x\<bar> * 100 + 1 / 2 < 1" and "0 \<le> \<bar>x\<bar> * 100 + 1 / 2" by simp_all
  then have "\<lfloor>\<bar>x\<bar> * 10\<^sup>2 + 1 / 2\<rfloor> = 0" by (simp add: floor_eq_iff)
  moreover from s have "\<not> 10 ^ 21 \<le> \<bar>x\<bar>" by simp
  ultimately show ?thesis by simp
qed

lemma toFixed2_large:
  assumes "1 / 200 \<le> \<bar>x\<bar>"
  shows "\<exists>v. parseFloat (toFixed 2 (Num x)) = Num v \<and> sgn v = sgn x"
proof (cases "10 ^ 21 \<le> \<bar>x\<bar>")
  case True
  then show ?thesis by simp
next
  case False
  define n where "n = nat \<lfloor>\<bar>x\<bar> * 10 ^ 2 + 1 / 2\<rfloor>"
  from assms have "1 \<le> \<bar>x\<bar> * 10 ^ 2 + 1 / 2" by simp
  then have "1 \<le> \<lfloor>\<bar>x\<bar> * 10 ^ 2 + 1 / 2\<rfloor>" by (simp only: le_floor_iff of_int_1)
  then have n: "0 < real n / 10 ^ 2" by (simp add: n_def)
  from assms have x: "x \<noteq> 0" by auto
  from False have "parseFloat (toFixed 2 (Num x)) =
      Num ((if x < 0 then - 1 else 1) * (real n / 10 ^ 2))"
    by (simp add: n_def)
  moreover have "sgn ((if x < 0 then - 1 else 1) * (real n / 10 ^ 2)) = sgn x"
  proof (cases "x < 0")
    case True
    with n show ?thesis by (simp add: sgn_mult)
  next
    case False
    with x have "0 < x" by simp
    with n False show ?thesis by (simp add: sgn_mult)
  qed
  ultimately show ?thesis by blast
qed

lemma toFixed2_sign:
  "\<exists>v. parseFloat (toFixed 2 (Num pc)) = Num v \<and>
       (if \<bar>pc\<bar> < 1 / 200 then v = 0 else sgn v = sgn pc)"
proof (cases "\<bar>pc\<bar> < 1 / 200")
  case True
  then show ?thesis using toFixed2_small [of pc] by simp
next
  case False
  then have "1 / 200 \<le> \<bar>pc\<bar>" by simp
  from toFixed2_large [OF this] False show ?thesis by simp
qed

lemma toFixed_not_finite: "\<not> isFinite x \<Longrightarrow> toFixed f x = Literal x"
  by (cases x) simp_all

lemma moderate_nonzero: "moderate x \<Longrightarrow> x \<noteq> 0"
  by (auto simp add: moderate_def)


lemma daysDiff_Num:
  "jdiv (jsub (Num t) (Num s)) (Num msPerDay) = Num (spec_days (Num t) (Num s))"
  by (simp add: jsub_def spec_days_def msPerDay_def)

lemma percentChange_zero_before: "\<not> isFinite (percentChange v (Num 0))"
proof (cases v)
  case (Num x)
  then show ?thesis
    by (cases x rule: round64_cases) (simp_all add: percentChange_def jsub_def)
qed (simp_all add: percentChange_def jsub_def)

section \<open>Evaluating the examples\<close>

lemmas sample_defs =
  dailyPrices_def changePointAt_def msPerDay_def enumerate_eq_zip upt_conv_Cons

lemmas window_defs = beforeData_def afterData_def jsub_def jge_def jgt_def

lemma risingSeries_before:
  "beforeData risingSeries (Num 90) (changePointAt 18262 c) =
     dailyPrices 18252 [48, 52, 48, 52, 48, 52, 48, 52, 48, 52]"
  by (simp add: risingSeries_def sample_defs window_defs)

lemma risingSeries_after:
  "afterData risingSeries (Num 90) (changePointAt 18262 c) =
     dailyPrices 18263 [59, 61, 59, 61, 59, 61, 59, 61, 59, 61]"
  by (simp add: risingSeries_def sample_defs window_defs)

lemma risingSeries_averages:
  "averagePrice (dailyPrices 18252 [48, 52, 48, 52, 48, 52, 48, 52, 48, 52]) = Num 50"
  "averagePrice (dailyPrices 18263 [59, 61, 59, 61, 59, 61, 59, 61, 59, 61]) = Num 60"
  by (simp_all add: sample_defs averagePrice_def round64_fixed)

lemma risingSeries_volatilities:
  "priceVolatility (dailyPrices 18252 [48, 52, 48, 52, 48, 52, 48, 52, 48, 52]) (Num 50) = Num 2"
  "priceVolatility (dailyPrices 18263 [59, 61, 59, 61, 59, 61, 59, 61, 59, 61]) (Num 60) = Num 1"
  by (simp_all add: sample_defs priceVolatility_def jsub_def round64_fixed)

lemma risingSeries_changes:
  "percentChange (Num 60) (Num 50) = Num 20"
  "percentChange (Num 1) (Num 2) = Num (- 50)"
   apply (simp add: percentChange_def jsub_def round64_fixed)
   apply (simp add: round64_down [where n = 3] roundHalfEven_def)
   apply (simp add: round64_up [where n = 4] roundHalfEven_def)
  apply (simp add: percentChange_def jsub_def round64_fixed)
  done

lemma risingSeries_analysis:
  "getChangePointAnalysis risingSeries (Num 90) (changePointAt 18262 c) =
     Some \<lparr>avgBefore = Decimal False 5000 2, avgAfter = Decimal False 6000 2,
           priceChange = Decimal False 2000 2,
           volatilityBefore = Decimal False 200 2, volatilityAfter = Decimal False 100 2,
           volatilityChange = Decimal True 5000 2,
           significance = (if 0.9 < c then ''High'' else if 0.8 < c then ''Medium'' else ''Low'')\<rparr>"
  unfolding getChangePointAnalysis_def Let_def risingSeries_before risingSeries_after
    risingSeries_averages risingSeries_volatilities risingSeries_changes
  by (simp add: sample_defs jgt_def)


lemma risingSeries_positive: "positivePrices (prices risingSeries)"
  by (simp add: risingSeries_def sample_defs positivePrices_def)



subsection \<open>The other series\<close>

lemma tinyRise_before:
  "beforeData tinyRise (Num 90) (changePointAt 18262 c) = dailyPrices 18252 (replicate 10 150)"
  by (simp add: tinyRise_def sample_defs window_defs numeral_eq_Suc)

lemma tinyRise_after:
  "afterData tinyRise (Num 90) (changePointAt 18262 c) =
     dailyPrices 18263 (15006 / 100 # replicate 9 150)"
  by (simp add: tinyRise_def sample_defs window_defs numeral_eq_Suc)

lemma flatBefore_before:
  "beforeData flatBefore (Num 90) (changePointAt 18262 c) = dailyPrices 18252 (replicate 10 50)"
  by (simp add: flatBefore_def sample_defs window_defs numeral_eq_Suc)

lemma flatBefore_after:
  "afterData flatBefore (Num 90) (changePointAt 18262 c) =
     dailyPrices 18263 [59, 61, 59, 61, 59, 61, 59, 61, 59, 61]"
  by (simp add: flatBefore_def sample_defs window_defs numeral_eq_Suc)



lemma replicate_ten: "replicate 10 x = [x, x, x, x, x, x, x, x, x, x]"
  by (simp add: numeral_eq_Suc)

lemma replicate_nine: "replicate 9 x = [x, x, x, x, x, x, x, x, x]"
  by (simp add: numeral_eq_Suc)

lemma tinyRise_average_before:
  "averagePrice (dailyPrices 18252 (replicate 10 150)) = Num 150"
  by (simp add: replicate_ten sample_defs averagePrice_def round64_fixed)

lemma tinyRise_average_after:
  "averagePrice (dailyPrices 18263 (15006 / 100 # replicate 9 150)) =
     Num (5277866919557333 / 2 ^ 45)"
  by (simp add: replicate_nine sample_defs averagePrice_def roundHalfEven_def
      round64_up [where n = 7] round64_up [where n = 8] round64_up [where n = 9]
      round64_up [where n = 10])

lemma tinyRise_difference:
  "jsub (Num (5277866919557333 / 2 ^ 45)) (Num 150) = Num (211106232533 / 2 ^ 45)"
  by (simp add: jsub_def)

lemma tinyRise_change:
  "percentChange (Num (5277866919557333 / 2 ^ 45)) (Num 150) =
     Num (2305843009213781 / 2 ^ 59)"
  by (simp add: percentChange_def jsub_def roundHalfEven_def
      round64_down [where n = 8] round64_down [where n = 15])

lemma flatBefore_average: "averagePrice (dailyPrices 18252 (replicate 10 50)) = Num 50"
  by (simp add: replicate_ten sample_defs averagePrice_def round64_fixed)

lemma flatBefore_volatility:
  "priceVolatility (dailyPrices 18252 (replicate 10 50)) (Num 50) = Num 0"
  by (simp add: replicate_ten sample_defs priceVolatility_def jsub_def round64_fixed)

lemma flatBefore_change: "percentChange (Num 1) (Num 0) = PosInf"
  by (simp add: percentChange_def jsub_def round64_fixed)





lemma steadySeries_before:
  "beforeData steadySeries (Num 90) (changePointAt 18262 c) = dailyPrices 18252 (replicate 10 50)"
  by (simp add: steadySeries_def sample_defs window_defs numeral_eq_Suc)

lemma steadySeries_after:
  "afterData steadySeries (Num 90) (changePointAt 18262 c) = dailyPrices 18263 (replicate 10 50)"
  by (simp add: steadySeries_def sample_defs window_defs numeral_eq_Suc)

lemma steadySeries_average: "averagePrice (dailyPrices 18263 (replicate 10 50)) = Num 50"
  by (simp add: replicate_ten sample_defs averagePrice_def round64_fixed)

lemma steadySeries_positive: "positivePrices (prices steadySeries)"
  by (simp add: steadySeries_def replicate_ten sample_defs positivePrices_def)

section \<open>The confidences of the change points\<close>

lemma jge_Num: "isFinite c \<Longrightarrow> jge c (Num t) = (t \<le> realOf c)"
  by (cases c) (simp_all add: jge_def)













section \<open>Evaluating the correlation tables\<close>

lemmas corr_defs = calculateCorrelationMatrix_def pushCell_def Math_random_def factors_def jsub_def

lemma matrix_values:
  assumes "correlationData data \<noteq> None"
  shows "map cell_value (fst (calculateCorrelationMatrix data r k)) =
     [Num 1, Num (r k * 2 - 1), Num (r (k + 1) * 2 - 1), Num (r (k + 2) * 2 - 1),
        Num (r (k + 3) * 2 - 1), Num (r (k + 4) * 2 - 1),
      Num (r (k + 5) * 2 - 1), Num 1, Num (r (k + 6) * 2 - 1), Num (r (k + 7) * 2 - 1),
        Num (r (k + 8) * 2 - 1), Num (r (k + 9) * 2 - 1),
      Num (r (k + 10) * 2 - 1), Num (r (k + 11) * 2 - 1), Num 1, Num (r (k + 12) * 2 - 1),
        Num (r (k + 13) * 2 - 1), Num (r (k + 14) * 2 - 1),
      Num (r (k + 15) * 2 - 1), Num (r (k + 16) * 2 - 1), Num (r (k + 17) * 2 - 1), Num 1,
        Num (r (k + 18) * 2 - 1), Num (r (k + 19) * 2 - 1),
      Num (r (k + 20) * 2 - 1), Num (r (k + 21) * 2 - 1), Num (r (k + 22) * 2 - 1),
        Num (r (k + 23) * 2 - 1), Num 1, Num (r (k + 24) * 2 - 1),
      Num (r (k + 25) * 2 - 1), Num (r (k + 26) * 2 - 1), Num (r (k + 27) * 2 - 1),
        Num (r (k + 28) * 2 - 1), Num (r (k + 29) * 2 - 1), Num 1]"
    and "snd (calculateCorrelationMatrix data r k) = k + 30"
  using assms by (simp_all add: corr_defs upt_conv_Cons numeral_eq_Suc)

lemmas impact_defs = getEventImpactCorrelation_def recordEvent_def summarizeType_def
  sortByStrength_def Math_random_def jsub_def jgt_def

lemmas period_defs = getTimePeriodAnalysis_def analysePeriod_def periods_def inPeriod_def
  Math_random_def jsub_def jge_def eventAt_def Let_def

lemma sampleData_matrix_low:
  "fst (calculateCorrelationMatrix sampleData lowDraws 0) ! 8 =
     \<lparr>cell_x = ''Event Frequency'', cell_y = ''Change Point Frequency'',
      cell_value = Num (- 1 / 2), cell_correlation = Decimal True 500 3\<rparr>"
  by (simp add: corr_defs sampleData_def lowDraws_def upt_conv_Cons)

lemma sampleData_matrix_high:
  "fst (calculateCorrelationMatrix sampleData highDraws 0) ! 8 =
     \<lparr>cell_x = ''Event Frequency'', cell_y = ''Change Point Frequency'',
      cell_value = Num (1 / 2), cell_correlation = Decimal False 500 3\<rparr>"
  by (simp add: corr_defs sampleData_def highDraws_def upt_conv_Cons)

lemma sampleData_impact_low:
  "map impact_correlation (fst (getEventImpactCorrelation sampleData lowDraws 0)) =
     [Decimal True 500 3, Decimal True 500 3, Decimal True 500 3]"
  by (simp add: impact_defs sampleData_def eventAt_def lowDraws_def)

lemma sampleData_impact_high:
  "map impact_correlation (fst (getEventImpactCorrelation sampleData highDraws 0)) =
     [Decimal False 500 3, Decimal False 500 3, Decimal False 500 3]"
  by (simp add: impact_defs sampleData_def eventAt_def highDraws_def)

lemma sampleData_period_counts:
  "map eventCount (fst (getTimePeriodAnalysis sampleData r k)) = [2, 1, 0, 1]"
  "map changePointCount (fst (getTimePeriodAnalysis sampleData r k)) = [2, 1, 0, 1]"
  by (simp_all add: period_defs sampleData_def sample_defs)

lemma pearson_of_counts: "spec_pearson [2, 1, 0, 1] [2, 1, 0, 1] = 1"
  by (simp add: spec_pearson_def spec_mean_def)

lemma sampleData_present: "correlationData sampleData \<noteq> None"
  by (simp add: sampleData_def)

lemma sampleData_matrix_counter: "snd (calculateCorrelationMatrix sampleData r k) = k + 30"
  using sampleData_present by (rule matrix_values(2))

lemma sampleData_impact_counter: "snd (getEventImpactCorrelation sampleData r k) = k + 6"
  by (simp add: impact_defs sampleData_def eventAt_def split_beta)

lemma sampleData_period_counter: "snd (getTimePeriodAnalysis sampleData r k) = k + 4"
  by (simp add: period_defs sampleData_def sample_defs)

lemma sampleData_render_counter: "snd (CorrelationAnalysis sampleData r k) = k + 40"
  by (simp add: CorrelationAnalysis_def split_beta sampleData_matrix_counter
      sampleData_impact_counter sampleData_period_counter)

lemma sampleData_render_matrix:
  "fst (fst (CorrelationAnalysis sampleData r k)) = fst (calculateCorrelationMatrix sampleData r k)"
  by (simp add: CorrelationAnalysis_def split_beta)

lemma sampleData_render_impact:
  "fst (snd (fst (CorrelationAnalysis sampleData r k))) =
     fst (getEventImpactCorrelation sampleData r (k + 30))"
  by (simp add: CorrelationAnalysis_def split_beta sampleData_matrix_counter)

lemma sampleData_render_periods:
  "snd (snd (fst (CorrelationAnalysis sampleData r k))) =
     fst (getTimePeriodAnalysis sampleData r (k + 36))"
  by (simp add: CorrelationAnalysis_def split_beta sampleData_matrix_counter
      sampleData_impact_counter add.assoc)

lemma falling_matrix_first:
  "map cell_correlation (take 2 (fst (calculateCorrelationMatrix sampleData fallingDraws 0))) =
     [Decimal False 1000 3, Decimal False 0 3]"
  by (simp add: corr_defs sampleData_def fallingDraws_def upt_conv_Cons)

lemma falling_matrix_second:
  "map cell_correlation (take 2 (fst (calculateCorrelationMatrix sampleData fallingDraws 40))) =
     [Decimal False 1000 3, Decimal True 952 3]"
  by (simp add: corr_defs sampleData_def fallingDraws_def upt_conv_Cons)

lemma falling_impact_first:
  "map impact_correlation (fst (getEventImpactCorrelation sampleData fallingDraws 30)) =
     [Decimal True 946 3, Decimal True 944 3, Decimal True 943 3]"
  by (simp add: impact_defs sampleData_def eventAt_def fallingDraws_def)

lemma falling_impact_second:
  "map impact_correlation (fst (getEventImpactCorrelation sampleData fallingDraws 70)) =
     [Decimal True 974 3, Decimal True 974 3, Decimal True 973 3]"
  by (simp add: impact_defs sampleData_def eventAt_def fallingDraws_def)

lemma falling_periods_first:
  "map period_correlation (fst (getTimePeriodAnalysis sampleData fallingDraws 36)) =
     [Decimal True 947 3, Decimal True 949 3, Decimal True 950 3, Decimal True 951 3]"
  by (simp add: period_defs sampleData_def sample_defs fallingDraws_def)

lemma falling_periods_second:
  "map period_correlation (fst (getTimePeriodAnalysis sampleData fallingDraws 76)) =
     [Decimal True 974 3, Decimal True 975 3, Decimal True 975 3, Decimal True 975 3]"
  by (simp add: period_defs sampleData_def sample_defs fallingDraws_def)

section \<open>The window analysis of a change point\<close>

text \<open>
  C3. The window analysis returns no analysis exactly when the before-window or the
  after-window holds fewer than 10 price points, and an analysis otherwise.
\<close>

theorem getChangePointAnalysis_None_iff:
  "(getChangePointAnalysis data analysisWindow changePoint = None \<longleftrightarrow>
      length (beforeData data analysisWindow changePoint) < 10 \<or>
      length (afterData data analysisWindow changePoint) < 10) \<and>
   ((\<exists>a. getChangePointAnalysis data analysisWindow changePoint = Some a) \<longleftrightarrow>
      10 \<le> length (beforeData data analysisWindow changePoint) \<and>
      10 \<le> length (afterData data analysisWindow changePoint))"
  by (simp add: getChangePointAnalysis_def Let_def not_less)

text \<open>
  The scenario of C3: an anchor with exactly 9 points before it and 40 after it has no
  analysis.
\<close>

theorem getChangePointAnalysis_None_witness:
  "length (beforeData shortBefore (Num 90) (changePointAt 18262 0.95)) = 9 \<and>
   length (afterData shortBefore (Num 90) (changePointAt 18262 0.95)) = 40 \<and>
   getChangePointAnalysis shortBefore (Num 90) (changePointAt 18262 0.95) = None"
proof -
  have b: "length (beforeData shortBefore (Num 90) (changePointAt 18262 0.95)) = 9"
    by (simp add: shortBefore_def sample_defs window_defs numeral_eq_Suc)
  have a: "length (afterData shortBefore (Num 90) (changePointAt 18262 0.95)) = 40"
    by (simp add: shortBefore_def sample_defs window_defs numeral_eq_Suc)
  from b have "getChangePointAnalysis shortBefore (Num 90) (changePointAt 18262 0.95) = None"
    using getChangePointAnalysis_None_iff [of shortBefore "Num 90" "changePointAt 18262 0.95"]
    by simp
  with a b show ?thesis by simp
qed




text \<open>
  C5. When the dates are valid, the before-window holds exactly the points of the series
  whose date lies between 0 and the window size in days before the anchor date, and the
  after-window those whose date lies between 0 and the window size in days after it, in
  the order of the series. A point dated on the anchor date is in both windows.
\<close>

theorem windows_by_day_difference:
  assumes dates: "validDates (prices data)" and anchor: "isFinite (date cp)"
  shows "beforeData data (Num n) cp =
           filter (\<lambda>p. 0 \<le> spec_days (date cp) (date p) \<and> spec_days (date cp) (date p) \<le> n)
             (prices data) \<and>
         afterData data (Num n) cp =
           filter (\<lambda>p. 0 \<le> spec_days (date p) (date cp) \<and> spec_days (date p) (date cp) \<le> n)
             (prices data) \<and>
         (\<forall>p \<in> set (prices data). date p = date cp \<and> 0 \<le> n \<longrightarrow>
            p \<in> set (beforeData data (Num n) cp) \<and> p \<in> set (afterData data (Num n) cp))"
proof -
  from anchor obtain t where t: "date cp = Num t" by (cases "date cp") simp_all
  have each: "\<exists>s. date p = Num s" if "p \<in> set (prices data)" for p
    using dates that by (cases "date p") (auto simp: validDates_def list_all_iff)
  have b: "beforeData data (Num n) cp =
           filter (\<lambda>p. 0 \<le> spec_days (date cp) (date p) \<and> spec_days (date cp) (date p) \<le> n)
             (prices data)"
    unfolding beforeData_def Let_def t
  proof (rule filter_cong [OF refl])
    fix p assume "p \<in> set (prices data)"
    then obtain s where s: "date p = Num s" using each by blast
    show "(jge (jdiv (jsub (Num t) (date p)) (Num msPerDay)) (Num 0) \<and>
           jle (jdiv (jsub (Num t) (date p)) (Num msPerDay)) (Num n)) =
          (0 \<le> spec_days (Num t) (date p) \<and> spec_days (Num t) (date p) \<le> n)"
      by (simp add: s daysDiff_Num jge_def)
  qed
  have a: "afterData data (Num n) cp =
           filter (\<lambda>p. 0 \<le> spec_days (date p) (date cp) \<and> spec_days (date p) (date cp) \<le> n)
             (prices data)"
    unfolding afterData_def Let_def t
  proof (rule filter_cong [OF refl])
    fix p assume "p \<in> set (prices data)"
    then obtain s where s: "date p = Num s" using each by blast
    show "(jge (jdiv (jsub (date p) (Num t)) (Num msPerDay)) (Num 0) \<and>
           jle (jdiv (jsub (date p) (Num t)) (Num msPerDay)) (Num n)) =
          (0 \<le> spec_days (date p) (Num t) \<and> spec_days (date p) (Num t) \<le> n)"
      by (simp add: s daysDiff_Num jge_def)
  qed
  have "p \<in> set (beforeData data (Num n) cp) \<and> p \<in> set (afterData data (Num n) cp)"
    if "p \<in> set (prices data)" "date p = date cp" "0 \<le> n" for p
    using that by (simp add: a b spec_days_def)
  with a b show ?thesis by blast
qed

theorem windows_by_day_difference_witness:
  "beforeData shortBefore (Num 3) (changePointAt 18262 0.95) = dailyPrices 18259 (replicate 4 50) \<and>
   afterData shortBefore (Num 3) (changePointAt 18262 0.95) = dailyPrices 18262 (replicate 4 50) \<and>
   \<lparr>date = Num (18262 * msPerDay), price = Num 50\<rparr> \<in>
     set (beforeData shortBefore (Num 3) (changePointAt 18262 0.95)) \<inter>
     set (afterData shortBefore (Num 3) (changePointAt 18262 0.95))"
proof -
  have d: "validDates (prices shortBefore)"
    by (simp add: shortBefore_def validDates_def sample_defs numeral_eq_Suc)
  have c: "isFinite (date (changePointAt 18262 0.95))"
    by (simp add: changePointAt_def)
  note w = windows_by_day_difference [OF d c, of 3]
  have b: "beforeData shortBefore (Num 3) (changePointAt 18262 0.95) = dailyPrices 18259 (replicate 4 50)"
    by (subst conjunct1 [OF w]) (simp add: shortBefore_def spec_days_def sample_defs numeral_eq_Suc)
  have a: "afterData shortBefore (Num 3) (changePointAt 18262 0.95) = dailyPrices 18262 (replicate 4 50)"
    by (subst conjunct1 [OF conjunct2 [OF w]])
      (simp add: shortBefore_def spec_days_def sample_defs numeral_eq_Suc)
  have m: "\<lparr>date = Num (18262 * msPerDay), price = Num 50\<rparr> \<in> set (prices shortBefore)"
    by (simp add: shortBefore_def sample_defs numeral_eq_Suc)
  from conjunct2 [OF conjunct2 [OF w]] m
  have "\<lparr>date = Num (18262 * msPerDay), price = Num 50\<rparr> \<in>
     set (beforeData shortBefore (Num 3) (changePointAt 18262 0.95)) \<inter>
     set (afterData shortBefore (Num 3) (changePointAt 18262 0.95))"
    by (simp add: changePointAt_def)
  with a b show ?thesis by simp
qed



text \<open>
  C7, as the code has it. The analysis returns the price change as a string of two
  decimals. For a series of positive prices whose computed averages and computed price
  change are finite, the computed change never has the sign opposite to that of the
  difference of the computed averages, it is zero when they are equal, and it has the sign
  of the difference when the before-average and the difference are of moderate magnitude.
  The number the returned string denotes is zero when the computed change is below 0.005 in
  magnitude, and has the sign of the computed change otherwise.
\<close>

theorem price_change_sign:
  assumes pos: "positivePrices (prices data)"
    and ok: "getChangePointAnalysis data w cp = Some a"
    and mA: "averagePrice (afterData data w cp) = Num mA"
    and mB: "averagePrice (beforeData data w cp) = Num mB"
    and pc: "percentChange (Num mA) (Num mB) = Num pc"
  shows "priceChange a = toFixed 2 (Num pc) \<and>
         0 \<le> pc * (mA - mB) \<and>
         (mA = mB \<longrightarrow> pc = 0) \<and>
         (moderate mB \<and> moderate (mA - mB) \<longrightarrow> sgn pc = sgn (mA - mB)) \<and>
         (\<exists>v. parseFloat (priceChange a) = Num v \<and>
              (if \<bar>pc\<bar> < 1 / 200 then v = 0 else sgn v = sgn pc))"
proof -
  let ?B = "beforeData data w cp" and ?A = "afterData data w cp"
  note a = getChangePointAnalysis_Some [OF ok]
  have pB: "positivePrices ?B"
    using pos by (simp add: beforeData_def Let_def positivePrices_filter)
  have b0: "0 \<le> mB" using pB mB by (rule averagePrice_nonneg)
  have r: "priceChange a = toFixed 2 (Num pc)"
    by (subst a(3)) (simp only: mA mB pc analysis.simps)
  have weak: "0 \<le> pc * (mA - mB)" using pc b0 by (rule percentChange_sign)
  have same: "pc = 0" if "mA = mB"
    using pc that percentChange_equal [of mB pc] by simp
  have strict: "sgn pc = sgn (mA - mB)" if m: "moderate mB" "moderate (mA - mB)"
  proof -
    from percentChange_error [OF m] pc
    have "\<bar>pc - spec_change_pct mA mB\<bar> \<le> \<bar>spec_change_pct mA mB\<bar> / 2 ^ 51" by simp
    then have "sgn pc = sgn (spec_change_pct mA mB)" by (rule close_sgn)
    moreover from b0 moderate_nonzero [OF m(1)] have "0 < mB" by simp
    ultimately show ?thesis by (simp only: sgn_change_pct)
  qed
  from toFixed2_sign [of pc] obtain v where v: "parseFloat (toFixed 2 (Num pc)) = Num v"
    and sv: "if \<bar>pc\<bar> < 1 / 200 then v = 0 else sgn v = sgn pc"
    by blast
  show ?thesis
  proof (intro conjI impI)
    show "priceChange a = toFixed 2 (Num pc)" by (rule r)
    show "0 \<le> pc * (mA - mB)" by (rule weak)
    show "pc = 0" if "mA = mB" using that by (rule same)
    show "sgn pc = sgn (mA - mB)" if "moderate mB \<and> moderate (mA - mB)"
      using that strict by blast
    show "\<exists>v. parseFloat (priceChange a) = Num v \<and>
              (if \<bar>pc\<bar> < 1 / 200 then v = 0 else sgn v = sgn pc)"
      using v sv by (intro exI [of _ v]) (simp only: r simp_thms)
  qed
qed

theorem price_change_sign_witness:
  "positivePrices (prices risingSeries) \<and>
   averagePrice (afterData risingSeries (Num 90) (changePointAt 18262 0.95)) = Num 60 \<and>
   averagePrice (beforeData risingSeries (Num 90) (changePointAt 18262 0.95)) = Num 50 \<and>
   percentChange (Num 60) (Num 50) = Num 20 \<and>
   moderate 50 \<and> moderate (60 - 50) \<and>
   (\<exists>a. getChangePointAnalysis risingSeries (Num 90) (changePointAt 18262 0.95) = Some a \<and>
        priceChange a = toFixed 2 (Num 20) \<and>
        parseFloat (priceChange a) = Num 20 \<and>
        sgn (20 :: real) = sgn (60 - 50)) \<and>
   positivePrices (prices steadySeries) \<and>
   averagePrice (afterData steadySeries (Num 90) (changePointAt 18262 0.95)) = Num 50 \<and>
   averagePrice (beforeData steadySeries (Num 90) (changePointAt 18262 0.95)) = Num 50 \<and>
   percentChange (Num 50) (Num 50) = Num 0 \<and>
   (\<exists>a. getChangePointAnalysis steadySeries (Num 90) (changePointAt 18262 0.95) = Some a \<and>
        priceChange a = toFixed 2 (Num 0) \<and>
        parseFloat (priceChange a) = Num 0)"
proof -
  let ?cp = "changePointAt 18262 0.95"
  obtain a where a: "getChangePointAnalysis risingSeries (Num 90) ?cp = Some a"
    by (simp add: risingSeries_analysis)
  have mA: "averagePrice (afterData risingSeries (Num 90) ?cp) = Num 60"
    and mB: "averagePrice (beforeData risingSeries (Num 90) ?cp) = Num 50"
    by (simp_all only: risingSeries_before risingSeries_after risingSeries_averages)
  have m: "moderate 50" "moderate (60 - 50)" by (simp_all add: moderate_def)
  note w = price_change_sign [OF risingSeries_positive a mA mB risingSeries_changes(1)]
  from w have r: "priceChange a = toFixed 2 (Num 20)" by (rule conjunct1)
  from w m have s: "sgn (20 :: real) = sgn (60 - 50)" by blast
  from r have p: "parseFloat (priceChange a) = Num 20" by simp
  have rising: "\<exists>a. getChangePointAnalysis risingSeries (Num 90) ?cp = Some a \<and>
        priceChange a = toFixed 2 (Num 20) \<and>
        parseFloat (priceChange a) = Num 20 \<and>
        sgn (20 :: real) = sgn (60 - 50)"
    using a r p s by (simp del: toFixed.simps)
  have nA: "averagePrice (afterData steadySeries (Num 90) ?cp) = Num 50"
    and nB: "averagePrice (beforeData steadySeries (Num 90) ?cp) = Num 50"
    by (simp_all only: steadySeries_before steadySeries_after steadySeries_average
        flatBefore_average)
  have l: "10 \<le> length (beforeData steadySeries (Num 90) ?cp)"
    "10 \<le> length (afterData steadySeries (Num 90) ?cp)"
    unfolding steadySeries_before steadySeries_after by (simp_all add: sample_defs)
  from getChangePointAnalysis_succeeds [OF l]
  obtain b where b: "getChangePointAnalysis steadySeries (Num 90) ?cp = Some b"
    by blast
  have z: "percentChange (Num 50) (Num 50) = Num 0" by (simp add: percentChange_same)
  note v = price_change_sign [OF steadySeries_positive b nA nB z]
  from v have q: "priceChange b = toFixed 2 (Num 0)" by (rule conjunct1)
  from q have t: "parseFloat (priceChange b) = Num 0" by simp
  have steady: "\<exists>a. getChangePointAnalysis steadySeries (Num 90) ?cp = Some a \<and>
        priceChange a = toFixed 2 (Num 0) \<and> parseFloat (priceChange a) = Num 0"
    using b q t by (simp del: toFixed.simps)
  from rising steady m mA mB nA nB z risingSeries_positive steadySeries_positive
    risingSeries_changes(1)
  show ?thesis by (simp del: toFixed.simps)
qed

text \<open>
  C7, as it is stated, fails: in the series \<open>tinyRise\<close> every price is positive and the
  computed average rises from 150 to 150.006, by 0.004 percent; the analysis returns the
  averages \<open>150.00\<close> and \<open>150.01\<close> and the price change \<open>0.00\<close>.
\<close>

theorem price_change_sign_counterexample:
  "positivePrices (prices tinyRise) \<and>
   jsub (averagePrice (afterData tinyRise (Num 90) (changePointAt 18262 0.95)))
        (averagePrice (beforeData tinyRise (Num 90) (changePointAt 18262 0.95))) =
     Num (211106232533 / 2 ^ 45) \<and>
   map_option avgBefore (getChangePointAnalysis tinyRise (Num 90) (changePointAt 18262 0.95)) =
     Some (Decimal False 15000 2) \<and>
   map_option avgAfter (getChangePointAnalysis tinyRise (Num 90) (changePointAt 18262 0.95)) =
     Some (Decimal False 15001 2) \<and>
   map_option priceChange (getChangePointAnalysis tinyRise (Num 90) (changePointAt 18262 0.95)) =
     Some (Decimal False 0 2) \<and>
   parseFloat (Decimal False 0 2) = Num 0 \<and>
   sgn (0 :: real) \<noteq> sgn (211106232533 / 2 ^ 45 :: real)"
proof -
  let ?cp = "changePointAt 18262 0.95"
  have p: "positivePrices (prices tinyRise)"
    by (simp add: tinyRise_def replicate_ten replicate_nine sample_defs positivePrices_def)
  have d: "jsub (averagePrice (afterData tinyRise (Num 90) ?cp))
        (averagePrice (beforeData tinyRise (Num 90) ?cp)) = Num (211106232533 / 2 ^ 45)"
    unfolding tinyRise_before tinyRise_after tinyRise_average_before tinyRise_average_after
    by (rule tinyRise_difference)
  have l: "length (dailyPrices 18252 (replicate 10 150)) = 10"
    "length (dailyPrices 18263 (15006 / 100 # replicate 9 150)) = 10"
    by (simp_all add: sample_defs)
  have b: "map_option avgBefore (getChangePointAnalysis tinyRise (Num 90) ?cp) =
     Some (Decimal False 15000 2)"
    unfolding getChangePointAnalysis_def Let_def tinyRise_before tinyRise_after
      tinyRise_average_before tinyRise_average_after l
    by simp
  have a: "map_option avgAfter (getChangePointAnalysis tinyRise (Num 90) ?cp) =
     Some (Decimal False 15001 2)"
    unfolding getChangePointAnalysis_def Let_def tinyRise_before tinyRise_after
      tinyRise_average_before tinyRise_average_after l
    by simp
  have r: "map_option priceChange (getChangePointAnalysis tinyRise (Num 90) ?cp) =
     Some (Decimal False 0 2)"
    unfolding getChangePointAnalysis_def Let_def tinyRise_before tinyRise_after
      tinyRise_average_before tinyRise_average_after tinyRise_change l
    by simp
  from p d b a r show ?thesis by simp
qed

text \<open>
  C9. The analysis guards the sizes of the windows only. Whenever it returns an analysis
  and the volatility it computed for the before-window is zero, the volatility change it
  reports is not a finite number. The series \<open>flatBefore\<close> is such an input: both windows
  hold 10 points, every price of the before-window is 50, and the reported volatility
  change is \<open>Infinity\<close>.
\<close>

theorem volatility_change_not_finite:
  assumes ok: "getChangePointAnalysis data w cp = Some a"
    and zero: "priceVolatility (beforeData data w cp) (averagePrice (beforeData data w cp)) = Num 0"
  shows "\<not> isFinite (parseFloat (volatilityChange a))"
proof -
  let ?v = "percentChange (priceVolatility (afterData data w cp) (averagePrice (afterData data w cp))) (Num 0)"
  have "volatilityChange a = toFixed 2 ?v"
    by (subst getChangePointAnalysis_Some(3) [OF ok]) (simp only: zero analysis.simps)
  also have "\<dots> = Literal ?v"
    by (rule toFixed_not_finite) (rule percentChange_zero_before)
  finally show ?thesis by (simp add: percentChange_zero_before)
qed

theorem volatility_change_not_finite_witness:
  "length (beforeData flatBefore (Num 90) (changePointAt 18262 0.95)) = 10 \<and>
   length (afterData flatBefore (Num 90) (changePointAt 18262 0.95)) = 10 \<and>
   map price (beforeData flatBefore (Num 90) (changePointAt 18262 0.95)) = replicate 10 (Num 50) \<and>
   priceVolatility (beforeData flatBefore (Num 90) (changePointAt 18262 0.95))
     (averagePrice (beforeData flatBefore (Num 90) (changePointAt 18262 0.95))) = Num 0 \<and>
   (\<exists>a. getChangePointAnalysis flatBefore (Num 90) (changePointAt 18262 0.95) = Some a \<and>
        volatilityChange a = Literal PosInf \<and> \<not> isFinite (parseFloat (volatilityChange a)))"
proof -
  let ?cp = "changePointAt 18262 0.95"
  have lb: "length (beforeData flatBefore (Num 90) ?cp) = 10"
    and la: "length (afterData flatBefore (Num 90) ?cp) = 10"
    and eq: "map price (beforeData flatBefore (Num 90) ?cp) = replicate 10 (Num 50)"
    unfolding flatBefore_before flatBefore_after by (simp_all add: sample_defs numeral_eq_Suc)
  have zero: "priceVolatility (beforeData flatBefore (Num 90) ?cp)
     (averagePrice (beforeData flatBefore (Num 90) ?cp)) = Num 0"
    unfolding flatBefore_before flatBefore_average by (rule flatBefore_volatility)
  from lb la obtain a where a: "getChangePointAnalysis flatBefore (Num 90) ?cp = Some a"
    using getChangePointAnalysis_succeeds [of flatBefore "Num 90" ?cp] by auto
  have "volatilityChange a = toFixed 2 (percentChange (Num 1) (Num 0))"
    by (subst getChangePointAnalysis_Some(3) [OF a])
      (simp only: flatBefore_before flatBefore_after flatBefore_average flatBefore_volatility
        risingSeries_averages risingSeries_volatilities analysis.simps)
  then have inf: "volatilityChange a = Literal PosInf"
    by (simp add: flatBefore_change)
  from volatility_change_not_finite [OF a zero] lb la eq zero a inf show ?thesis by simp
qed

section \<open>The threshold filter and the histogram\<close>

text \<open>
  C8. The filter returns exactly the change points whose confidence is at least the
  threshold, in their original order, for every threshold (those between 0 and 1
  included). The thresholds the view offers are 0.5, 0.6, 0.7, 0.8 and 0.9.
\<close>

theorem filtered_change_points:
  assumes fin: "list_all (\<lambda>cp. isFinite (confidence cp)) (changePoints data)"
  shows "getFilteredChangePoints data (Num t) =
           filter (\<lambda>cp. t \<le> realOf (confidence cp)) (changePoints data) \<and>
         subseq (getFilteredChangePoints data (Num t)) (changePoints data) \<and>
         set (getFilteredChangePoints data (Num t)) =
           {cp \<in> set (changePoints data). t \<le> realOf (confidence cp)} \<and>
         confidenceThresholdOptions = [0.5, 0.6, 0.7, 0.8, 0.9] \<and>
         list_all (\<lambda>t. 0 \<le> t \<and> t \<le> 1) confidenceThresholdOptions \<and>
         initialConfidenceThreshold \<in> set confidenceThresholdOptions"
proof -
  have eq: "getFilteredChangePoints data (Num t) =
           filter (\<lambda>cp. t \<le> realOf (confidence cp)) (changePoints data)"
    unfolding getFilteredChangePoints_def
  proof (rule filter_cong [OF refl])
    fix cp assume "cp \<in> set (changePoints data)"
    with fin have "isFinite (confidence cp)" by (simp add: list_all_iff)
    then show "jge (confidence cp) (Num t) = (t \<le> realOf (confidence cp))" by (rule jge_Num)
  qed
  have sub: "subseq (getFilteredChangePoints data (Num t)) (changePoints data)"
    by (simp add: getFilteredChangePoints_def)
  have mem: "set (getFilteredChangePoints data (Num t)) =
           {cp \<in> set (changePoints data). t \<le> realOf (confidence cp)}"
    by (simp only: eq set_filter)
  have opts: "confidenceThresholdOptions = [0.5, 0.6, 0.7, 0.8, 0.9]"
    "list_all (\<lambda>t. 0 \<le> t \<and> t \<le> 1) confidenceThresholdOptions"
    "initialConfidenceThreshold \<in> set confidenceThresholdOptions"
    by (simp_all add: confidenceThresholdOptions_def initialConfidenceThreshold_def)
  from eq sub mem opts show ?thesis by (intro conjI)
qed

theorem filtered_change_points_witness:
  "getFilteredChangePoints mixedConfidences (Num 0.7) =
     [changePointAt 18400 0.95, changePointAt 18500 1, changePointAt 18600 0.7] \<and>
   getFilteredChangePoints mixedConfidences (Num 0.5) =
     [changePointAt 18300 0.55, changePointAt 18400 0.95, changePointAt 18500 1,
      changePointAt 18600 0.7]"
proof -
  have fin: "list_all (\<lambda>cp. isFinite (confidence cp)) (changePoints mixedConfidences)"
    by (simp add: mixedConfidences_def changePointAt_def)
  have "filter (\<lambda>cp. 0.7 \<le> realOf (confidence cp)) (changePoints mixedConfidences) =
     [changePointAt 18400 0.95, changePointAt 18500 1, changePointAt 18600 0.7]"
    by (simp add: mixedConfidences_def changePointAt_def)
  moreover have "filter (\<lambda>cp. 0.5 \<le> realOf (confidence cp)) (changePoints mixedConfidences) =
     [changePointAt 18300 0.55, changePointAt 18400 0.95, changePointAt 18500 1,
      changePointAt 18600 0.7]"
    by (simp add: mixedConfidences_def changePointAt_def)
  ultimately show ?thesis
    using conjunct1 [OF filtered_change_points [OF fin, of "7 / 10"]]
      conjunct1 [OF filtered_change_points [OF fin, of "5 / 10"]]
    by simp
qed



section \<open>The correlation tables\<close>

text \<open>
  C1. The claim that every entry of the correlation matrix and every correlation of the
  event-impact table is a Pearson coefficient of the data does not hold of the code. For
  the data \<open>sampleData\<close> the entry of the matrix for the event frequency and the
  change-point frequency is -0.5 when \<open>Math.random()\<close> returns 0.25 and 0.5 when it returns
  0.75, while the Pearson coefficient of the events and the change points per period,
  which are 2, 1, 0 and 1 each, is 1. The correlations of the event-impact table follow
  the draws in the same way.
\<close>

theorem correlation_entries_follow_the_draws:
  "fst (calculateCorrelationMatrix sampleData lowDraws 0) ! 8 =
     \<lparr>cell_x = ''Event Frequency'', cell_y = ''Change Point Frequency'',
      cell_value = Num (- 1 / 2), cell_correlation = Decimal True 500 3\<rparr> \<and>
   fst (calculateCorrelationMatrix sampleData highDraws 0) ! 8 =
     \<lparr>cell_x = ''Event Frequency'', cell_y = ''Change Point Frequency'',
      cell_value = Num (1 / 2), cell_correlation = Decimal False 500 3\<rparr> \<and>
   map eventCount (fst (getTimePeriodAnalysis sampleData lowDraws 0)) = [2, 1, 0, 1] \<and>
   map changePointCount (fst (getTimePeriodAnalysis sampleData lowDraws 0)) = [2, 1, 0, 1] \<and>
   spec_pearson [2, 1, 0, 1] [2, 1, 0, 1] = 1 \<and>
   map impact_correlation (fst (getEventImpactCorrelation sampleData lowDraws 0)) =
     [Decimal True 500 3, Decimal True 500 3, Decimal True 500 3] \<and>
   map impact_correlation (fst (getEventImpactCorrelation sampleData highDraws 0)) =
     [Decimal False 500 3, Decimal False 500 3, Decimal False 500 3]"
  by (simp only: sampleData_matrix_low sampleData_matrix_high sampleData_period_counts
      pearson_of_counts sampleData_impact_low sampleData_impact_high simp_thms)

text \<open>
  C2. The claim that the correlation analysis is deterministic does not hold of the code.
  The component renders the data \<open>sampleData\<close> twice, with the values of \<open>Math.random()\<close>
  falling from 1/2 on: the first rendering makes 40 calls, and the second, which starts
  at call 40, shows other correlations in the matrix, in the event-impact table and in the
  time-period table.
\<close>

theorem correlation_analysis_differs_between_renderings:
  "snd (CorrelationAnalysis sampleData fallingDraws 0) = 40 \<and>
   map cell_correlation (take 2 (fst (fst (CorrelationAnalysis sampleData fallingDraws 0)))) =
     [Decimal False 1000 3, Decimal False 0 3] \<and>
   map cell_correlation (take 2 (fst (fst (CorrelationAnalysis sampleData fallingDraws 40)))) =
     [Decimal False 1000 3, Decimal True 952 3] \<and>
   map impact_correlation (fst (snd (fst (CorrelationAnalysis sampleData fallingDraws 0)))) =
     [Decimal True 946 3, Decimal True 944 3, Decimal True 943 3] \<and>
   map impact_correlation (fst (snd (fst (CorrelationAnalysis sampleData fallingDraws 40)))) =
     [Decimal True 974 3, Decimal True 974 3, Decimal True 973 3] \<and>
   map period_correlation (snd (snd (fst (CorrelationAnalysis sampleData fallingDraws 0)))) =
     [Decimal True 947 3, Decimal True 949 3, Decimal True 950 3, Decimal True 951 3] \<and>
   map period_correlation (snd (snd (fst (CorrelationAnalysis sampleData fallingDraws 40)))) =
     [Decimal True 974 3, Decimal True 975 3, Decimal True 975 3, Decimal True 975 3] \<and>
   fst (CorrelationAnalysis sampleData fallingDraws 0) \<noteq>
     fst (CorrelationAnalysis sampleData fallingDraws 40)"
proof -
  have c: "snd (CorrelationAnalysis sampleData fallingDraws 0) = 40"
    by (simp add: sampleData_render_counter)
  have m0: "map cell_correlation (take 2 (fst (fst (CorrelationAnalysis sampleData fallingDraws 0)))) =
     [Decimal False 1000 3, Decimal False 0 3]"
    by (simp only: sampleData_render_matrix falling_matrix_first)
  have m1: "map cell_correlation (take 2 (fst (fst (CorrelationAnalysis sampleData fallingDraws 40)))) =
     [Decimal False 1000 3, Decimal True 952 3]"
    by (simp only: sampleData_render_matrix falling_matrix_second)
  have e0: "map impact_correlation (fst (snd (fst (CorrelationAnalysis sampleData fallingDraws 0)))) =
     [Decimal True 946 3, Decimal True 944 3, Decimal True 943 3]"
    using falling_impact_first by (simp add: sampleData_render_impact)
  have e1: "map impact_correlation (fst (snd (fst (CorrelationAnalysis sampleData fallingDraws 40)))) =
     [Decimal True 974 3, Decimal True 974 3, Decimal True 973 3]"
    using falling_impact_second by (simp add: sampleData_render_impact)
  have p0: "map period_correlation (snd (snd (fst (CorrelationAnalysis sampleData fallingDraws 0)))) =
     [Decimal True 947 3, Decimal True 949 3, Decimal True 950 3, Decimal True 951 3]"
    using falling_periods_first by (simp add: sampleData_render_periods)
  have p1: "map period_correlation (snd (snd (fst (CorrelationAnalysis sampleData fallingDraws 40)))) =
     [Decimal True 974 3, Decimal True 975 3, Decimal True 975 3, Decimal True 975 3]"
    using falling_periods_second by (simp add: sampleData_render_periods)
  have "fst (CorrelationAnalysis sampleData fallingDraws 0) \<noteq>
     fst (CorrelationAnalysis sampleData fallingDraws 40)"
  proof
    assume "fst (CorrelationAnalysis sampleData fallingDraws 0) =
      fst (CorrelationAnalysis sampleData fallingDraws 40)"
    with m0 m1 show False by simp
  qed
  with c m0 m1 e0 e1 p0 p1 show ?thesis by (intro conjI)
qed

end
